theory Spec2Isabelle
  imports Main
begin

section \<open>JavaScript values\<close>

text \<open>
  The values that \<^verbatim>\<open>JSON.parse\<close> produces and that \<^verbatim>\<open>server.js\<close> builds from them.
  Numbers are the integers (timestamps, counters); strings are lists of characters, one
  \<^typ>\<open>char\<close> per UTF-16 code unit, which is exact for ASCII text. An object is the list
  of its own properties in the order in which JavaScript enumerates them (creation order,
  for keys that are not array indices), with distinct keys.
\<close>

datatype jsval =
    JUndefined
  | JNull
  | JBool bool
  | JNum int
  | JStr string
  | JArr "jsval list"
  | JObj "(string \<times> jsval) list"

datatype js_error = TypeError

text \<open>Truthiness, as tested by \<^verbatim>\<open>if (v)\<close>, \<^verbatim>\<open>!v\<close> and \<^verbatim>\<open>a || b\<close>.\<close>

fun truthy :: "jsval \<Rightarrow> bool" where
  "truthy JUndefined = False"
| "truthy JNull = False"
| "truthy (JBool b) = b"
| "truthy (JNum n) = (n \<noteq> 0)"
| "truthy (JStr s) = (s \<noteq> [])"
| "truthy (JArr vs) = True"
| "truthy (JObj kvs) = True"

definition js_or :: "jsval \<Rightarrow> jsval \<Rightarrow> jsval" where
  "js_or a b = (if truthy a then a else b)"

fun nullish :: "jsval \<Rightarrow> bool" where
  "nullish JUndefined = True"
| "nullish JNull = True"
| "nullish v = False"

text \<open>
  \<^verbatim>\<open>v.k\<close> for a value that is neither \<^verbatim>\<open>null\<close> nor \<^verbatim>\<open>undefined\<close> (reading a property of
  those throws a TypeError, which every caller below checks with \<^const>\<open>nullish\<close> first).
  None of the property names read by the server is defined on the prototype of a
  primitive or of an array, so they are \<^verbatim>\<open>undefined\<close> there.
\<close>

fun js_get :: "jsval \<Rightarrow> string \<Rightarrow> jsval" where
  "js_get (JObj kvs) k = (case map_of kvs k of None \<Rightarrow> JUndefined | Some v \<Rightarrow> v)"
| "js_get v k = JUndefined"

text \<open>
  \<^verbatim>\<open>v.substring(0, 200)\<close>: only a string has the method; calling it on anything else
  throws.
\<close>

fun substring200 :: "jsval \<Rightarrow> js_error + jsval" where
  "substring200 (JStr s) = Inr (JStr (take 200 s))"
| "substring200 v = Inl TypeError"

text \<open>
  \<^verbatim>\<open>JSON.stringify\<close>. JSON text that the server writes is represented by the value it
  denotes, that is, by what \<^verbatim>\<open>JSON.parse\<close> gives back for it: a property whose value is
  \<^verbatim>\<open>undefined\<close> is left out, and \<^verbatim>\<open>undefined\<close> inside an array becomes \<^verbatim>\<open>null\<close>.
\<close>

fun JSON_stringify :: "jsval \<Rightarrow> jsval"
  and stringify_members :: "(string \<times> jsval) list \<Rightarrow> (string \<times> jsval) list"
  and stringify_elements :: "jsval list \<Rightarrow> jsval list" where
  "JSON_stringify (JObj kvs) = JObj (stringify_members kvs)"
| "JSON_stringify (JArr vs) = JArr (stringify_elements vs)"
| "JSON_stringify v = v"
| "stringify_members [] = []"
| "stringify_members ((k, v) # kvs) =
     (if v = JUndefined then stringify_members kvs
      else (k, JSON_stringify v) # stringify_members kvs)"
| "stringify_elements [] = []"
| "stringify_elements (v # vs) =
     (if v = JUndefined then JNull else JSON_stringify v) # stringify_elements vs"

section \<open>Server state\<close>

datatype ready_state = CONNECTING | OPEN | CLOSING | CLOSED

record ws_client =
  cid :: nat
  readyState :: ready_state

text \<open>
  The calls the server makes on the outside world, in the order it makes them:
  \<^verbatim>\<open>client.send(text)\<close> on the socket with the given id, and
  \<^verbatim>\<open>fs.writeFileSync(agentCommsFile, text)\<close>.
\<close>

datatype io_event = Send nat jsval | WriteFile jsval

text \<open>
  What \<^verbatim>\<open>JSON.parse(fs.readFileSync(agentCommsFile))\<close> meets: no file, text that is not
  JSON, or a JSON document.
\<close>

datatype comms_file = Missing | Unparsable | Parsed jsval

text \<open>
  \<^verbatim>\<open>files\<close> maps a path to the bytes of the file (\<open>None\<close>: \<^verbatim>\<open>statSync\<close> and reads
  throw). \<^verbatim>\<open>commsWritable\<close> says whether \<^verbatim>\<open>writeFileSync\<close> on the agent-comms file succeeds.
  The remaining fields are the globals of \<^verbatim>\<open>server.js\<close> of the same names.
\<close>

record server =
  files :: "string \<Rightarrow> string option"
  sessionFileOffsets :: "string \<Rightarrow> nat option"
  lastSessionUpdates :: "string \<Rightarrow> (string \<Rightarrow> jsval option) option"
  lastEventSize :: nat
  clients :: "ws_client list"
  commsFile :: comms_file
  commsWritable :: bool
  io_log :: "io_event list"

section \<open>Publishing an agent-comms event\<close>

text \<open>\<^verbatim>\<open>wss.clients.forEach(client => { if (client.readyState === OPEN) client.send(message) })\<close>\<close>

definition send_open :: "jsval \<Rightarrow> ws_client list \<Rightarrow> io_event list" where
  "send_open message cs = map (\<lambda>c. Send (cid c) message) (filter (\<lambda>c. readyState c = OPEN) cs)"

text \<open>The entry that \<^verbatim>\<open>broadcastA2AEvent\<close> pushes on the persisted array.\<close>

definition comm_entry :: "jsval \<Rightarrow> jsval" where
  "comm_entry event = JObj
     [(''timestamp'', js_get event ''ts''),
      (''from'', js_get event ''fromAgent''),
      (''to'', js_or (js_get event ''toAgent'') JNull),
      (''message'', js_or (js_or (js_or (js_get event ''task'') (js_get event ''message''))
                                 (js_get event ''error'')) (js_get event ''status'')),
      (''status'', js_or (js_get event ''status'') (JStr ''sent'')),
      (''event'', js_get event ''event''),
      (''details'', event)]"

text \<open>\<^verbatim>\<open>if (comms.length > 200) comms = comms.slice(-200)\<close>\<close>

definition keep200 :: "jsval list \<Rightarrow> jsval list" where
  "keep200 comms = (if length comms > 200 then drop (length comms - 200) comms else comms)"

text \<open>
  \<^verbatim>\<open>try { comms = JSON.parse(fs.readFileSync(agentCommsFile)) } catch { comms = [] }\<close>
\<close>


definition read_comms :: "server \<Rightarrow> jsval" where
  "read_comms s = (case commsFile s of Parsed v \<Rightarrow> v | _ \<Rightarrow> JArr [])"

text \<open>
  \<^verbatim>\<open>broadcastA2AEvent(event)\<close>. The result is the new state and the exception that leaves
  the function, if any: \<^verbatim>\<open>comms.push\<close> throws when the parsed file is not an array, after
  the sends have been made.
\<close>

definition broadcastA2AEvent :: "jsval \<Rightarrow> server \<Rightarrow> server \<times> js_error option" where
  "broadcastA2AEvent event s =
     (let message = JSON_stringify (JObj [(''type'', JStr ''agent_comms''), (''data'', event)]);
          s1 = s\<lparr>io_log := io_log s @ send_open message (clients s)\<rparr>
      in case read_comms s1 of
           JArr comms \<Rightarrow>
             if nullish event then (s1, Some TypeError)
             else
               let doc = JSON_stringify (JArr (keep200 (comms @ [comm_entry event])));
                   s2 = s1\<lparr>io_log := io_log s1 @ [WriteFile doc]\<rparr>
               in (if commsWritable s2 then s2\<lparr>commsFile := Parsed doc\<rparr> else s2, None)
         | _ \<Rightarrow> (s1, Some TypeError))"

section \<open>Extracting events from a session record\<close>

text \<open>
  The body of \<^verbatim>\<open>msg.content.forEach(block => ...)\<close> up to the call of
  \<^verbatim>\<open>broadcastA2AEvent\<close>: the event built for one content block, \<open>None\<close> when the
  callback returns early.
\<close>

definition toolCallEvent :: "jsval \<Rightarrow> string \<Rightarrow> jsval \<Rightarrow> js_error + jsval option" where
  "toolCallEvent obj agentId block =
     (if nullish block then Inl TypeError
      else if js_get block ''type'' \<noteq> JStr ''toolCall'' then Inr None
      else if js_get block ''name'' \<noteq> JStr ''sessions_spawn''
              \<and> js_get block ''name'' \<noteq> JStr ''sessions_send'' then Inr None
      else
        let args = js_or (js_get block ''arguments'') (JObj []) in
        if js_get block ''name'' = JStr ''sessions_spawn'' then
          (case substring200 (js_or (js_get args ''task'') (JStr [])) of
             Inl e \<Rightarrow> Inl e
           | Inr task \<Rightarrow> Inr (Some (JObj
               [(''ts'', js_get obj ''timestamp''),
                (''fromAgent'', JStr agentId),
                (''action'', js_get block ''name''),
                (''event'', JStr ''agent.spawn''),
                (''toAgent'', js_or (js_or (js_get args ''agentId'') (js_get args ''label''))
                                    (JStr ''subagent'')),
                (''task'', task),
                (''model'', js_or (js_get args ''model'') JNull),
                (''label'', js_or (js_get args ''label'') JNull)])))
        else
          (case substring200 (js_or (js_get args ''message'') (JStr [])) of
             Inl e \<Rightarrow> Inl e
           | Inr message \<Rightarrow> Inr (Some (JObj
               [(''ts'', js_get obj ''timestamp''),
                (''fromAgent'', JStr agentId),
                (''action'', js_get block ''name''),
                (''event'', JStr ''agent.send''),
                (''toAgent'', js_or (js_or (js_get args ''sessionKey'') (js_get args ''label''))
                                    (JStr ''?'')),
                (''message'', message)]))))"

text \<open>
  The \<^verbatim>\<open>forEach\<close> over the content blocks: an exception thrown for a block (by the
  callback or by \<^verbatim>\<open>broadcastA2AEvent\<close>) ends the loop; what was published before stays.
\<close>

fun forEach_block :: "jsval \<Rightarrow> string \<Rightarrow> jsval list \<Rightarrow> server \<Rightarrow> server \<times> js_error option" where
  "forEach_block obj agentId [] s = (s, None)"
| "forEach_block obj agentId (block # blocks) s =
     (case toolCallEvent obj agentId block of
        Inl e \<Rightarrow> (s, Some e)
      | Inr None \<Rightarrow> forEach_block obj agentId blocks s
      | Inr (Some event) \<Rightarrow>
          (case broadcastA2AEvent event s of
             (s1, Some e) \<Rightarrow> (s1, Some e)
           | (s1, None) \<Rightarrow> forEach_block obj agentId blocks s1))"

text \<open>The event built for a tool result of \<^verbatim>\<open>sessions_spawn\<close> or \<^verbatim>\<open>sessions_send\<close>.\<close>

definition toolResultEvent :: "jsval \<Rightarrow> string \<Rightarrow> jsval \<Rightarrow> jsval" where
  "toolResultEvent obj agentId msg =
     (let details = js_or (js_get msg ''details'') (JObj []);
          head = [(''ts'', js_get obj ''timestamp''),
                  (''fromAgent'', JStr agentId),
                  (''action'', js_get msg ''toolName''),
                  (''status'', js_or (js_get details ''status'') (JStr ''unknown''))]
      in if js_get details ''status'' = JStr ''error'' \<or> js_get details ''status'' = JStr ''forbidden''
         then JObj (head @
                [(''event'', JStr ''agent.error''),
                 (''error'', js_or (js_get details ''error'') (JStr ''unknown error''))])
         else if js_get msg ''toolName'' = JStr ''sessions_spawn''
         then JObj (head @
                [(''event'', JStr ''agent.spawn_ok''),
                 (''runId'', js_or (js_get details ''runId'') JNull),
                 (''childSessionKey'', js_or (js_get details ''childSessionKey'') JNull)])
         else JObj (head @
                [(''event'', JStr ''agent.send_ok''),
                 (''runId'', js_or (js_get details ''runId'') JNull)]))"

fun is_array :: "jsval \<Rightarrow> bool" where
  "is_array (JArr vs) = True"
| "is_array v = False"

fun elements :: "jsval \<Rightarrow> jsval list" where
  "elements (JArr vs) = vs"
| "elements v = []"

text \<open>\<^verbatim>\<open>processSessionLine(obj, agentId)\<close>\<close>

definition processSessionLine :: "jsval \<Rightarrow> string \<Rightarrow> server \<Rightarrow> server \<times> js_error option" where
  "processSessionLine obj agentId s =
     (if nullish obj then (s, Some TypeError)
      else if js_get obj ''type'' \<noteq> JStr ''message'' then (s, None)
      else
        let msg = js_get obj ''message'' in
        if \<not> truthy msg then (s, None)
        else
          case (if js_get msg ''role'' = JStr ''assistant'' \<and> is_array (js_get msg ''content'')
                then forEach_block obj agentId (elements (js_get msg ''content'')) s
                else (s, None)) of
            (s1, Some e) \<Rightarrow> (s1, Some e)
          | (s1, None) \<Rightarrow>
              if js_get msg ''role'' = JStr ''toolResult''
                 \<and> (js_get msg ''toolName'' = JStr ''sessions_spawn''
                      \<or> js_get msg ''toolName'' = JStr ''sessions_send'')
              then broadcastA2AEvent (toolResultEvent obj agentId msg) s1
              else (s1, None))"

section \<open>Tailing files\<close>

text \<open>
  \<^verbatim>\<open>JSON.parse\<close> on the text of a log line or of a session index is a parameter
  \<open>parse\<close> of the functions below: \<open>None\<close> when it throws a SyntaxError. File contents
  are bytes, and the decoded text has one character per byte (ASCII logs).
\<close>

type_synonym json_parser = "string \<Rightarrow> jsval option"

text \<open>The ASCII characters that \<^verbatim>\<open>String.prototype.trim\<close> removes.\<close>

definition is_space :: "char \<Rightarrow> bool" where
  "is_space c = (c \<in> set [CHR 0x09, CHR 0x0A, CHR 0x0B, CHR 0x0C, CHR 0x0D, CHR 0x20])"

definition js_trim :: "string \<Rightarrow> string" where
  "js_trim s = rev (dropWhile is_space (rev (dropWhile is_space s)))"

text \<open>\<^verbatim>\<open>buffer.split('\n')\<close>: the segments between newlines; the last one may be empty.\<close>

fun split_newline :: "string \<Rightarrow> string list" where
  "split_newline [] = [[]]"
| "split_newline (c # cs) =
     (if c = CHR 0x0A then [] # split_newline cs
      else (case split_newline cs of [] \<Rightarrow> [[c]] | l # ls \<Rightarrow> (c # l) # ls))"

text \<open>\<^verbatim>\<open>buffer.split('\n').filter(l => l.trim())\<close>\<close>

definition nonblank_lines :: "string \<Rightarrow> string list" where
  "nonblank_lines buffer = filter (\<lambda>l. js_trim l \<noteq> []) (split_newline buffer)"

text \<open>
  A read stream created by \<^verbatim>\<open>tailSessionFile\<close> whose \<^verbatim>\<open>end\<close> callback has not run yet:
  the path, \<^verbatim>\<open>stats.size\<close>, the bytes of the range \<^verbatim>\<open>[prevOffset, stats.size - 1]\<close> and the
  agent.
\<close>

record pending_read =
  rd_path :: string
  rd_size :: nat
  rd_buffer :: string
  rd_agent :: string

definition read_range :: "string \<Rightarrow> nat \<Rightarrow> nat \<Rightarrow> string" where
  "read_range content start fsize = drop start (take fsize content)"

text \<open>\<^verbatim>\<open>sessionFileOffsets[filePath] || 0\<close>\<close>

definition stored_offset :: "server \<Rightarrow> string \<Rightarrow> nat" where
  "stored_offset s filePath = (case sessionFileOffsets s filePath of None \<Rightarrow> 0 | Some n \<Rightarrow> n)"

text \<open>
  The synchronous part of \<^verbatim>\<open>tailSessionFile(filePath, agentId)\<close>: stat, compare with the
  stored offset, create the stream.
\<close>

definition tailSessionFile_open :: "string \<Rightarrow> string \<Rightarrow> server \<Rightarrow> server \<times> pending_read option" where
  "tailSessionFile_open filePath agentId s =
     (case files s filePath of
        None \<Rightarrow> (s, None)
      | Some content \<Rightarrow>
          let fsize = length content;
              prevOffset = stored_offset s filePath
          in if fsize \<le> prevOffset
             then (s\<lparr>sessionFileOffsets := (sessionFileOffsets s)(filePath \<mapsto> fsize)\<rparr>, None)
             else (s, Some \<lparr>rd_path = filePath, rd_size = fsize,
                            rd_buffer = read_range content prevOffset fsize,
                            rd_agent = agentId\<rparr>))"

text \<open>
  \<^verbatim>\<open>lines.forEach(line => { try { processSessionLine(JSON.parse(line), agentId) } catch {} })\<close>:
  whatever is thrown for a line is dropped, and the loop goes on.
\<close>

fun forEach_line :: "json_parser \<Rightarrow> string \<Rightarrow> string list \<Rightarrow> server \<Rightarrow> server" where
  "forEach_line parse agentId [] s = s"
| "forEach_line parse agentId (line # lines) s =
     forEach_line parse agentId lines
       (case parse line of
          None \<Rightarrow> s
        | Some obj \<Rightarrow> fst (processSessionLine obj agentId s))"

text \<open>The \<^verbatim>\<open>end\<close> callback of the stream.\<close>

definition tailSessionFile_end :: "json_parser \<Rightarrow> pending_read \<Rightarrow> server \<Rightarrow> server" where
  "tailSessionFile_end parse rd s =
     forEach_line parse (rd_agent rd) (nonblank_lines (rd_buffer rd))
       (s\<lparr>sessionFileOffsets := (sessionFileOffsets s)(rd_path rd \<mapsto> rd_size rd)\<rparr>)"

text \<open>One tail call whose stream ends before anything else happens.\<close>

definition tailSessionFile :: "json_parser \<Rightarrow> string \<Rightarrow> string \<Rightarrow> server \<Rightarrow> server" where
  "tailSessionFile parse filePath agentId s =
     (case tailSessionFile_open filePath agentId s of
        (s1, None) \<Rightarrow> s1
      | (s1, Some rd) \<Rightarrow> tailSessionFile_end parse rd s1)"

subsection \<open>The shared events file\<close>

definition EVENTS_FILE :: string where
  "EVENTS_FILE = ''antfarm/events.jsonl''"

definition broadcastEvent :: "jsval \<Rightarrow> server \<Rightarrow> server" where
  "broadcastEvent event s =
     s\<lparr>io_log := io_log s @
          send_open (JSON_stringify (JObj [(''type'', JStr ''antfarm_event''), (''data'', event)]))
            (clients s)\<rparr>"

text \<open>\<^verbatim>\<open>curr.size\<close> of \<^verbatim>\<open>fs.watchFile\<close>: 0 for a file that does not exist.\<close>

definition events_size :: "server \<Rightarrow> nat" where
  "events_size s = (case files s EVENTS_FILE of None \<Rightarrow> 0 | Some content \<Rightarrow> length content)"

definition startEventTail :: "server \<Rightarrow> server" where
  "startEventTail s = s\<lparr>lastEventSize := events_size s\<rparr>"

fun forEach_event_line :: "json_parser \<Rightarrow> string list \<Rightarrow> server \<Rightarrow> server" where
  "forEach_event_line parse [] s = s"
| "forEach_event_line parse (line # lines) s =
     forEach_event_line parse lines
       (case parse line of None \<Rightarrow> s | Some event \<Rightarrow> broadcastEvent event s)"

text \<open>The listener that \<^verbatim>\<open>startEventTail\<close> registers with \<^verbatim>\<open>fs.watchFile\<close>, stream included.\<close>

definition eventTail_change :: "json_parser \<Rightarrow> server \<Rightarrow> server" where
  "eventTail_change parse s =
     (let fsize = events_size s in
      if fsize \<le> lastEventSize s then s\<lparr>lastEventSize := fsize\<rparr>
      else
        let buffer = (case files s EVENTS_FILE of
                        None \<Rightarrow> []
                      | Some content \<Rightarrow> read_range content (lastEventSize s) fsize)
        in forEach_event_line parse (nonblank_lines buffer) (s\<lparr>lastEventSize := fsize\<rparr>))"

section \<open>A new WebSocket connection\<close>

text \<open>\<^verbatim>\<open>xs.slice(-n)\<close>\<close>

definition slice_last :: "nat \<Rightarrow> 'a list \<Rightarrow> 'a list" where
  "slice_last n xs = drop (length xs - n) xs"

definition antfarm_backfill :: "json_parser \<Rightarrow> nat \<Rightarrow> string list \<Rightarrow> io_event list" where
  "antfarm_backfill parse c recent =
     concat (map (\<lambda>line. case parse line of
                            None \<Rightarrow> []
                          | Some event \<Rightarrow>
                              [Send c (JSON_stringify (JObj [(''type'', JStr ''antfarm_event''),
                                 (''data'', event), (''backfill'', JBool True)]))]) recent)"

text \<open>
  \<^verbatim>\<open>commsData.slice(-30).forEach(comm => ws.send(...))\<close>: reading \<^verbatim>\<open>comm.details\<close> of a
  \<^verbatim>\<open>null\<close> entry throws, which ends the loop (the surrounding \<^verbatim>\<open>try\<close> drops the exception).
\<close>

fun comms_backfill :: "nat \<Rightarrow> jsval list \<Rightarrow> io_event list" where
  "comms_backfill c [] = []"
| "comms_backfill c (comm # comms) =
     (if nullish comm then []
      else Send c (JSON_stringify (JObj [(''type'', JStr ''agent_comms''),
             (''data'', js_or (js_get comm ''details'') comm), (''backfill'', JBool True)]))
           # comms_backfill c comms)"

text \<open>The two backfill blocks of the connection handler, each inside its own \<^verbatim>\<open>try\<close>.\<close>

definition backfill_antfarm :: "json_parser \<Rightarrow> nat \<Rightarrow> server \<Rightarrow> io_event list" where
  "backfill_antfarm parse c s =
     (case files s EVENTS_FILE of
        None \<Rightarrow> []
      | Some content \<Rightarrow>
          antfarm_backfill parse c (slice_last 50 (nonblank_lines (js_trim content))))"

definition backfill_comms :: "nat \<Rightarrow> server \<Rightarrow> io_event list" where
  "backfill_comms c s =
     (case commsFile s of
        Parsed (JArr commsData) \<Rightarrow> comms_backfill c (slice_last 30 commsData)
      | _ \<Rightarrow> [])"

text \<open>
  The handler of \<^verbatim>\<open>wss.on('connection')\<close> for the socket with id \<open>c\<close>, which the
  WebSocket server has added to \<^verbatim>\<open>wss.clients\<close> in state \<^verbatim>\<open>OPEN\<close> before it calls the handler.
\<close>

definition connection :: "json_parser \<Rightarrow> nat \<Rightarrow> server \<Rightarrow> server" where
  "connection parse c s =
     (let s0 = s\<lparr>clients := clients s @ [\<lparr>cid = c, readyState = OPEN\<rparr>]\<rparr>
      in s0\<lparr>io_log := io_log s0 @ backfill_antfarm parse c s0 @ backfill_comms c s0 @
               [Send c (JSON_stringify (JObj [(''type'', JStr ''backfill_complete'')]))]\<rparr>)"

section \<open>Polling the session stores\<close>

definition AGENTS_BASE :: string where
  "AGENTS_BASE = ''agents''"

text \<open>
  \<^verbatim>\<open>path.join(AGENTS_BASE, agentId, 'sessions', 'sessions.json')\<close>, for an agent id that is
  a directory name (no separator and no dot segment for \<^verbatim>\<open>path.join\<close> to normalise).
\<close>

definition sessionsPath :: "string \<Rightarrow> string" where
  "sessionsPath agentId = AGENTS_BASE @ ''/'' @ agentId @ ''/sessions/sessions.json''"



text \<open>
  The argument of \<^verbatim>\<open>fs.statSync\<close> when \<^verbatim>\<open>if (val.sessionFile)\<close> lets it through: a
  non-empty string. For any other truthy value \<^verbatim>\<open>statSync\<close> throws inside its \<^verbatim>\<open>try\<close>.
\<close>

fun path_of :: "jsval \<Rightarrow> string option" where
  "path_of (JStr p) = (if p = [] then None else Some p)"
| "path_of v = None"

text \<open>
  \<^verbatim>\<open>lastSessionUpdates[agentId][key]\<close>, read and written. A key that was never stored
  reads as \<^verbatim>\<open>undefined\<close>, or as a member of \<^verbatim>\<open>Object.prototype\<close> when it has the name of
  one; such a member differs from every truthy parsed value, as \<^verbatim>\<open>undefined\<close> does, which
  is all the code asks of it.
\<close>

definition stored_update :: "server \<Rightarrow> string \<Rightarrow> string \<Rightarrow> jsval" where
  "stored_update s agentId key =
     (case lastSessionUpdates s agentId of
        None \<Rightarrow> JUndefined
      | Some m \<Rightarrow> (case m key of None \<Rightarrow> JUndefined | Some v \<Rightarrow> v))"

definition set_update :: "string \<Rightarrow> string \<Rightarrow> jsval \<Rightarrow> server \<Rightarrow> server" where
  "set_update agentId key v s =
     s\<lparr>lastSessionUpdates := (lastSessionUpdates s)
          (agentId \<mapsto> (case lastSessionUpdates s agentId of
                          None \<Rightarrow> Map.empty
                        | Some m \<Rightarrow> m)(key \<mapsto> v))\<rparr>"

text \<open>
  \<^verbatim>\<open>currUpdate !== prevUpdate\<close> where \<open>currUpdate\<close> comes from the index just parsed: an
  array or an object is a new reference, different from every stored one.
\<close>

fun strict_neq :: "jsval \<Rightarrow> jsval \<Rightarrow> bool" where
  "strict_neq (JArr vs) prev = True"
| "strict_neq (JObj kvs) prev = True"
| "strict_neq v prev = (v \<noteq> prev)"


text \<open>
  The test of the later polls, \<^verbatim>\<open>currUpdate && currUpdate !== prevUpdate\<close>, for an entry
  \<^verbatim>\<open>[sessionKey, sessionData]\<close> of the index.
\<close>

definition session_changed :: "server \<Rightarrow> string \<Rightarrow> string \<times> jsval \<Rightarrow> bool" where
  "session_changed s agentId entry =
     (let prevUpdate = stored_update s agentId (fst entry);
          currUpdate = js_get (snd entry) ''updatedAt''
      in truthy currUpdate \<and> strict_neq currUpdate prevUpdate)"

text \<open>
  What the loop does for an entry that passed the test: store the new value, and call
  \<^verbatim>\<open>tailSessionFile\<close> when there is a session file.
\<close>

definition session_tail :: "string \<Rightarrow> string \<times> jsval \<Rightarrow> server \<Rightarrow> server \<times> pending_read option" where
  "session_tail agentId entry s =
     (let s1 = set_update agentId (fst entry) (js_get (snd entry) ''updatedAt'') s
      in case path_of (js_get (snd entry) ''sessionFile'') of
           None \<Rightarrow> (s1, None)
         | Some p \<Rightarrow> tailSessionFile_open p agentId s1)"

text \<open>
  The loop of every later poll. It returns the streams that \<^verbatim>\<open>tailSessionFile\<close> has
  created, in creation order; their \<^verbatim>\<open>end\<close> callbacks run after the loop.
\<close>

fun forEach_session ::
  "string \<Rightarrow> (string \<times> jsval) list \<Rightarrow> server \<Rightarrow> server \<times> pending_read list \<times> js_error option" where
  "forEach_session agentId [] s = (s, [], None)"
| "forEach_session agentId ((sessionKey, sessionData) # rest) s =
     (if nullish sessionData then (s, [], Some TypeError)
      else
        if session_changed s agentId (sessionKey, sessionData)
        then
          (case session_tail agentId (sessionKey, sessionData) s of
             (s1, rd) \<Rightarrow>
               (case forEach_session agentId rest s1 of
                  (s2, rds, e) \<Rightarrow> (s2, (case rd of None \<Rightarrow> [] | Some r \<Rightarrow> [r]) @ rds, e)))
        else forEach_session agentId rest s)"






text \<open>
  \<^verbatim>\<open>pollSessionStores()\<close> itself only starts one \<^verbatim>\<open>fs.readFile\<close> per id of
  \<^verbatim>\<open>CORE_AGENT_IDS\<close>: these are the paths. The callbacks run later, in the order in which
  the reads finish.
\<close>

definition pollSessionStores :: "string list \<Rightarrow> string list" where
  "pollSessionStores agentIds = map sessionsPath agentIds"

section \<open>Runs and observations\<close>

text \<open>The state at process start on a machine without any of the files.\<close>

definition server0 :: server where
  "server0 = \<lparr>files = Map.empty, sessionFileOffsets = Map.empty,
              lastSessionUpdates = Map.empty, lastEventSize = 0, clients = [],
              commsFile = Missing, commsWritable = True, io_log = []\<rparr>"

text \<open>Publishing a sequence of events, one call of \<^verbatim>\<open>broadcastA2AEvent\<close> after the other.\<close>

definition publish_all :: "jsval list \<Rightarrow> server \<Rightarrow> server" where
  "publish_all events s = fold (\<lambda>event s. fst (broadcastA2AEvent event s)) events s"

text \<open>The messages sent on socket \<open>c\<close>, in order.\<close>

fun received :: "nat \<Rightarrow> io_event list \<Rightarrow> jsval list" where
  "received c [] = []"
| "received c (Send c' m # log) = (if c' = c then m # received c log else received c log)"
| "received c (WriteFile d # log) = received c log"

text \<open>The array that a successful publish of \<open>event\<close> leaves as the last element of the file.\<close>

definition stored_entry :: "jsval \<Rightarrow> jsval" where
  "stored_entry event = JSON_stringify (comm_entry event)"

fun is_object :: "jsval \<Rightarrow> bool" where
  "is_object (JObj kvs) = True"
| "is_object v = False"

fun is_send :: "io_event \<Rightarrow> bool" where
  "is_send (Send c m) = True"
| "is_send (WriteFile d) = False"

text \<open>
  The messages a subscriber reads: a live agent-comms event, the same event replayed at
  connection time, and the marker that ends the backfill.
\<close>

definition live_message :: "jsval \<Rightarrow> jsval" where
  "live_message event = JObj [(''type'', JStr ''agent_comms''), (''data'', JSON_stringify event)]"

definition backfill_message :: "jsval \<Rightarrow> jsval" where
  "backfill_message event =
     JObj [(''type'', JStr ''agent_comms''), (''data'', JSON_stringify event),
           (''backfill'', JBool True)]"

definition backfill_complete :: jsval where
  "backfill_complete = JObj [(''type'', JStr ''backfill_complete'')]"

text \<open>
  The later polls as the specification words them, to be compared with the loop of the
  code: the new \<^verbatim>\<open>updatedAt\<close> counts when it is truthy and is not the stored value (an
  array or an object never is).
\<close>

definition updatedAt_changed :: "jsval \<Rightarrow> jsval \<Rightarrow> bool" where
  "updatedAt_changed current stored =
     (current \<notin> set [JUndefined, JNull, JBool False, JNum 0, JStr []]
      \<and> (is_array current \<or> is_object current \<or> current \<noteq> stored))"



text \<open>
  The path \<open>p\<close> is the session file of a changed session of the index, and the file exists
  and is not longer than the stored offset.
\<close>

definition tailed_not_grown :: "server \<Rightarrow> string \<Rightarrow> (string \<times> jsval) list \<Rightarrow> string \<Rightarrow> bool" where
  "tailed_not_grown s agentId entries p =
     (p \<noteq> []
      \<and> list_ex (\<lambda>entry. updatedAt_changed (js_get (snd entry) ''updatedAt'')
                            (stored_update s agentId (fst entry))
                          \<and> js_get (snd entry) ''sessionFile'' = JStr p) entries
      \<and> (case files s p of None \<Rightarrow> False | Some content \<Rightarrow> length content \<le> stored_offset s p))"


text \<open>What a publish leaves alone: everything but the log of calls and the replay file.\<close>

definition publish_only :: "server \<Rightarrow> server \<Rightarrow> bool" where
  "publish_only s s' =
     (files s' = files s \<and> sessionFileOffsets s' = sessionFileOffsets s
      \<and> lastSessionUpdates s' = lastSessionUpdates s \<and> lastEventSize s' = lastEventSize s
      \<and> clients s' = clients s \<and> commsWritable s' = commsWritable s)"

text \<open>
  The order of section 4.4 of the specification, as a property of a log: no message is
  sent before the replay file has been written.
\<close>

definition persisted_before_delivery :: "io_event list \<Rightarrow> bool" where
  "persisted_before_delivery log = (takeWhile is_send log = [])"

subsection \<open>Sample data\<close>

text \<open>The record of section 8 of the specification, and the event the server builds for it.\<close>

definition spawn_record :: jsval where
  "spawn_record =
     JObj [(''type'', JStr ''message''), (''timestamp'', JNum 1000),
           (''message'', JObj [(''role'', JStr ''assistant''),
              (''content'', JArr [JObj [(''type'', JStr ''toolCall''),
                 (''name'', JStr ''sessions_spawn''),
                 (''arguments'', JObj [(''agentId'', JStr ''ops''),
                                       (''task'', JStr ''build report'')])]])])]"

definition spawn_event :: jsval where
  "spawn_event =
     JObj [(''ts'', JNum 1000), (''fromAgent'', JStr ''main''),
           (''action'', JStr ''sessions_spawn''), (''event'', JStr ''agent.spawn''),
           (''toAgent'', JStr ''ops''), (''task'', JStr ''build report''),
           (''model'', JNull), (''label'', JNull)]"

text \<open>The result of a \<^verbatim>\<open>sessions_send\<close> call that was refused.\<close>

definition send_error_record :: jsval where
  "send_error_record =
     JObj [(''type'', JStr ''message''), (''timestamp'', JNum 2000),
           (''message'', JObj [(''role'', JStr ''toolResult''),
              (''toolName'', JStr ''sessions_send''),
              (''details'', JObj [(''status'', JStr ''forbidden''),
                                  (''error'', JStr ''not allowed'')])])]"

text \<open>A server with one open and one closed socket, and the same with a corrupt replay file.\<close>

definition two_clients :: server where
  "two_clients =
     server0\<lparr>clients := [\<lparr>cid = 0, readyState = OPEN\<rparr>, \<lparr>cid = 1, readyState = CLOSED\<rparr>]\<rparr>"

definition garbled_replay :: server where
  "garbled_replay = two_clients\<lparr>commsFile := Unparsable\<rparr>"

text \<open>
  The sample record as a line of a session log, and \<^verbatim>\<open>JSON.parse\<close> restricted to the
  texts used in the examples (any other text counts as malformed).
\<close>

definition spawn_line :: string where
  \<open>spawn_line = ''{"type":"message","timestamp":1000,"message":{"role":"assistant","content":[{"type":"toolCall","name":"sessions_spawn","arguments":{"agentId":"ops","task":"build report"}}]}}''\<close>

definition index_line :: "string \<Rightarrow> string" where
  \<open>index_line updatedAt = ''{"agent:main:main":{"updatedAt":'' @ updatedAt @ '',"sessionFile":"agents/main/sessions/s1.jsonl"}}''\<close>

definition index_object :: "int \<Rightarrow> jsval" where
  "index_object updatedAt =
     JObj [(''agent:main:main'',
            JObj [(''updatedAt'', JNum updatedAt),
                  (''sessionFile'', JStr ''agents/main/sessions/s1.jsonl'')])]"

definition sample_parse :: json_parser where
  "sample_parse line =
     (if line = spawn_line then Some spawn_record
      else if line = index_line ''0'' then Some (index_object 0)
      else if line = index_line ''2000'' then Some (index_object 2000)
      else None)"

definition session_log :: string where
  "session_log = ''agents/main/sessions/s1.jsonl''"

text \<open>Both logs hold the sample line without a terminating newline; nothing was read yet.\<close>

definition partial_write :: server where
  "partial_write =
     two_clients\<lparr>files := [session_log \<mapsto> spawn_line, EVENTS_FILE \<mapsto> spawn_line]\<rparr>"

text \<open>
  Both logs hold the sample line, terminated, while the stored offsets are 1000: the files
  were replaced by shorter ones.
\<close>

definition shrunk_log :: server where
  "shrunk_log =
     two_clients\<lparr>files := [session_log \<mapsto> spawn_line @ [CHR 0x0A],
                              EVENTS_FILE \<mapsto> spawn_line @ [CHR 0x0A]],
                  sessionFileOffsets := [session_log \<mapsto> 1000],
                  lastEventSize := 1000\<rparr>"

definition shrunk_log_rewound :: server where
  "shrunk_log_rewound = shrunk_log\<lparr>sessionFileOffsets := [session_log \<mapsto> 0]\<rparr>"

text \<open>A session log whose first line is not JSON, followed by the sample line.\<close>

definition malformed_log :: server where
  "malformed_log =
     two_clients\<lparr>files := [session_log \<mapsto> ''not json'' @ [CHR 0x0A] @ spawn_line @ [CHR 0x0A]]\<rparr>"



text \<open>Events that differ in their timestamp, and the first \<open>n\<close> of them.\<close>

definition numbered_event :: "nat \<Rightarrow> jsval" where
  "numbered_event i =
     JObj [(''ts'', JNum (int i)), (''fromAgent'', JStr ''main''),
           (''action'', JStr ''sessions_send''), (''event'', JStr ''agent.send''),
           (''toAgent'', JStr ''ops''), (''message'', JStr ''ping'')]"

definition numbered_events :: "nat \<Rightarrow> jsval list" where
  "numbered_events n = map numbered_event [0..<n]"


section \<open>Facts about serialisation and publishing\<close>

lemma stringify_undefined [simp]: "(JSON_stringify v = JUndefined) = (v = JUndefined)"
  by (cases v) simp_all

lemma stringify_idem:
  "JSON_stringify (JSON_stringify v) = JSON_stringify v"
  "stringify_members (stringify_members kvs) = stringify_members kvs"
  "stringify_elements (stringify_elements vs) = stringify_elements vs"
  by (induction v and kvs and vs rule: JSON_stringify_stringify_members_stringify_elements.induct)
     simp_all

lemma stringify_elements_append:
  "stringify_elements (xs @ ys) = stringify_elements xs @ stringify_elements ys"
  by (induction xs) simp_all

lemma length_stringify_elements [simp]: "length (stringify_elements xs) = length xs"
  by (induction xs) simp_all

lemma stringify_elements_drop:
  "stringify_elements (drop n xs) = drop n (stringify_elements xs)"
  by (induction xs arbitrary: n) (simp_all add: drop_Cons split: nat.splits)

lemma keep200_slice: "keep200 xs = slice_last 200 xs"
  by (simp add: keep200_def slice_last_def)

lemma stringify_elements_slice:
  "stringify_elements (slice_last n xs) = slice_last n (stringify_elements xs)"
  by (simp add: slice_last_def stringify_elements_drop)

lemma stringify_message:
  "\<not> nullish event \<Longrightarrow>
   JSON_stringify (JObj [(''type'', JStr ''agent_comms''), (''data'', event)])
   = JObj [(''type'', JStr ''agent_comms''), (''data'', JSON_stringify event)]"
  by (cases event) simp_all

lemma not_nullish_undefined: "\<not> nullish v \<Longrightarrow> v \<noteq> JUndefined"
  by (cases v) simp_all

lemma broadcast_frame:
  "files (fst (broadcastA2AEvent event s)) = files s"
  "sessionFileOffsets (fst (broadcastA2AEvent event s)) = sessionFileOffsets s"
  "lastSessionUpdates (fst (broadcastA2AEvent event s)) = lastSessionUpdates s"
  "lastEventSize (fst (broadcastA2AEvent event s)) = lastEventSize s"
  "clients (fst (broadcastA2AEvent event s)) = clients s"
  "commsWritable (fst (broadcastA2AEvent event s)) = commsWritable s"
  by (simp_all add: broadcastA2AEvent_def read_comms_def Let_def split: jsval.splits comms_file.splits)

lemma broadcast_log:
  assumes "read_comms s = JArr comms" "\<not> nullish event"
  shows "io_log (fst (broadcastA2AEvent event s))
         = io_log s
           @ send_open (JObj [(''type'', JStr ''agent_comms''), (''data'', JSON_stringify event)]) (clients s)
           @ [WriteFile (JArr (slice_last 200 (stringify_elements comms @ [stored_entry event])))]"
    and "snd (broadcastA2AEvent event s) = None"
    and "commsFile (fst (broadcastA2AEvent event s))
         = (if commsWritable s
            then Parsed (JArr (slice_last 200 (stringify_elements comms @ [stored_entry event])))
            else commsFile s)"
  using assms not_nullish_undefined [OF assms(2)]
  by (simp_all add: broadcastA2AEvent_def read_comms_def Let_def stringify_message keep200_slice
        stringify_elements_slice stringify_elements_append stored_entry_def comm_entry_def
      split: comms_file.splits)

lemma slice_last_slice_append:
  "slice_last n (slice_last n xs @ ys) = slice_last n (xs @ ys)"
proof (cases "length xs \<le> n")
  case True
  then show ?thesis by (simp add: slice_last_def)
next
  case False
  then have "length xs + length ys - n = (length xs - n) + length ys"
    and "length ys + length xs - n = (length xs - n) + length ys" by simp_all
  with False show ?thesis by (simp add: slice_last_def)
qed

lemma length_slice_last [simp]: "length (slice_last n xs) = min n (length xs)"
  by (simp add: slice_last_def)

lemma stored_entry_object: "stored_entry event = JObj (stringify_members
     [(''timestamp'', js_get event ''ts''),
      (''from'', js_get event ''fromAgent''),
      (''to'', js_or (js_get event ''toAgent'') JNull),
      (''message'', js_or (js_or (js_or (js_get event ''task'') (js_get event ''message''))
                                 (js_get event ''error'')) (js_get event ''status'')),
      (''status'', js_or (js_get event ''status'') (JStr ''sent'')),
      (''event'', js_get event ''event''),
      (''details'', event)])"
  by (simp only: stored_entry_def comm_entry_def JSON_stringify.simps)

lemma stringify_stored_entry [simp]: "stringify_elements [stored_entry event] = [stored_entry event]"
  by (simp add: stored_entry_def stringify_idem comm_entry_def)

lemma stringify_elements_map_stored [simp]:
  "stringify_elements (map stored_entry es) = map stored_entry es"
  by (induction es) (simp_all add: stored_entry_def stringify_idem comm_entry_def)

lemma publish_all_Cons [simp]:
  "publish_all (e # es) s = publish_all es (fst (broadcastA2AEvent e s))"
  by (simp add: publish_all_def)

lemma publish_all_Nil [simp]: "publish_all [] s = s"
  by (simp add: publish_all_def)

lemma publish_all_frame:
  "files (publish_all es s) = files s"
  "clients (publish_all es s) = clients s"
  "commsWritable (publish_all es s) = commsWritable s"
  "sessionFileOffsets (publish_all es s) = sessionFileOffsets s"
  by (induction es arbitrary: s) (simp_all add: broadcast_frame)

lemma read_comms_after:
  assumes "read_comms s = JArr comms" "\<not> nullish event" "commsWritable s"
  shows "read_comms (fst (broadcastA2AEvent event s))
         = JArr (slice_last 200 (stringify_elements comms @ [stored_entry event]))"
  using broadcast_log(3) [OF assms(1,2)] assms(3) by (simp add: read_comms_def)

lemma publish_all_buffer:
  assumes "read_comms s = JArr comms" "stringify_elements comms = comms" "length comms \<le> 200"
    "commsWritable s" "list_all (\<lambda>e. \<not> nullish e) es"
  shows "read_comms (publish_all es s) = JArr (slice_last 200 (comms @ map stored_entry es))"
  using assms
proof (induction es arbitrary: s comms)
  case Nil
  then show ?case by (simp add: slice_last_def)
next
  case (Cons e es)
  let ?s = "fst (broadcastA2AEvent e s)"
  let ?c = "slice_last 200 (comms @ [stored_entry e])"
  have rc: "read_comms ?s = JArr ?c"
    using read_comms_after [of s comms e] Cons.prems by simp
  have fixed: "stringify_elements ?c = ?c"
    by (simp only: stringify_elements_slice stringify_elements_append stringify_stored_entry
          Cons.prems(2))
  have "read_comms (publish_all es ?s) = JArr (slice_last 200 (?c @ map stored_entry es))"
    using Cons.IH [OF rc fixed] Cons.prems by (simp add: broadcast_frame)
  then show ?case by (simp add: slice_last_slice_append)
qed

section \<open>Facts about publishing frames and line splitting\<close>

lemma publish_only_refl [simp]: "publish_only s s"
  by (simp add: publish_only_def)

lemma publish_only_trans: "publish_only s s1 \<Longrightarrow> publish_only s1 s2 \<Longrightarrow> publish_only s s2"
  by (simp add: publish_only_def)

lemma broadcast_publish_only: "publish_only s (fst (broadcastA2AEvent event s))"
  by (simp add: publish_only_def broadcast_frame)

lemma forEach_block_publish_only: "publish_only s (fst (forEach_block obj a bs s))"
proof (induction bs arbitrary: s)
  case Nil
  show ?case by simp
next
  case (Cons b bs)
  show ?case
  proof (cases "toolCallEvent obj a b")
    case (Inl e)
    then show ?thesis by simp
  next
    case (Inr r)
    show ?thesis
    proof (cases r)
      case None
      with Inr Cons.IH show ?thesis by simp
    next
      case (Some event)
      obtain s1 x where b: "broadcastA2AEvent event s = (s1, x)" by (cases "broadcastA2AEvent event s")
      have p1: "publish_only s s1" using broadcast_publish_only [of s event] b by simp
      show ?thesis
      proof (cases x)
        case None
        with Inr Some b show ?thesis
          using publish_only_trans [OF p1 Cons.IH [of s1]] by simp
      next
        case (Some e)
        with Inr \<open>r = Some event\<close> b p1 show ?thesis by simp
      qed
    qed
  qed
qed

lemma process_publish_only: "publish_only s (fst (processSessionLine obj a s))"
proof -
  let ?msg = "js_get obj ''message''"
  let ?blocks = "forEach_block obj a (elements (js_get ?msg ''content'')) s"
  obtain s1 x where fb: "?blocks = (s1, x)" by (cases ?blocks)
  have p1: "publish_only s s1" using forEach_block_publish_only [of s obj a] fb
    by (metis fst_conv)
  have p2: "publish_only s (fst (broadcastA2AEvent ev s1))" for ev
    using publish_only_trans [OF p1 broadcast_publish_only] .
  have p3: "publish_only s (fst (broadcastA2AEvent ev s))" for ev
    by (rule broadcast_publish_only)
  show ?thesis
    using fb p1 p2 p3
    by (auto simp: processSessionLine_def Let_def split: option.splits prod.splits)
qed

lemma forEach_line_publish_only: "publish_only s (forEach_line parse a ls s)"
proof (induction ls arbitrary: s)
  case Nil
  show ?case by simp
next
  case (Cons l ls)
  show ?case
  proof (cases "parse l")
    case None
    with Cons.IH show ?thesis by simp
  next
    case (Some obj)
    with publish_only_trans [OF process_publish_only Cons.IH] show ?thesis by simp
  qed
qed

lemma forEach_line_skip:
  "parse bad = None \<Longrightarrow>
   forEach_line parse a (before @ bad # after) s = forEach_line parse a (before @ after) s"
  by (induction before arbitrary: s) simp_all

lemma split_newline_nonempty [simp]: "split_newline xs \<noteq> []"
  by (induction xs) (auto split: list.splits)

lemma split_newline_append:
  "split_newline (xs @ CHR 0x0A # ys) = split_newline xs @ split_newline ys"
  by (induction xs) (auto split: list.splits)

lemma split_newline_single: "CHR 0x0A \<notin> set t \<Longrightarrow> split_newline t = [t]"
  by (induction t) auto

lemma nonblank_lines_append:
  "nonblank_lines (xs @ CHR 0x0A # ys) = nonblank_lines xs @ nonblank_lines ys"
  by (simp add: nonblank_lines_def split_newline_append)

lemma nonblank_lines_single:
  "CHR 0x0A \<notin> set t \<Longrightarrow> js_trim t \<noteq> [] \<Longrightarrow> nonblank_lines t = [t]"
  by (simp add: nonblank_lines_def split_newline_single)

lemma nonblank_lines_Nil [simp]: "nonblank_lines [] = []"
  by (simp add: nonblank_lines_def js_trim_def)

lemma nonblank_lines_unterminated:
  assumes "buf = [] \<or> last buf = CHR 0x0A" "CHR 0x0A \<notin> set t" "js_trim t \<noteq> []"
  shows "nonblank_lines (buf @ t) = nonblank_lines buf @ [t]"
proof (cases "buf = []")
  case True
  with assms show ?thesis by (simp add: nonblank_lines_single)
next
  case False
  with assms(1) have "buf = butlast buf @ [CHR 0x0A]"
    by (metis append_butlast_last_id)
  then obtain b where b: "buf = b @ [CHR 0x0A]" ..
  have "nonblank_lines (buf @ t) = nonblank_lines b @ nonblank_lines t"
    using nonblank_lines_append [of b t] b by simp
  moreover have "nonblank_lines buf = nonblank_lines b"
    using nonblank_lines_append [of b "[]"] b by simp
  ultimately show ?thesis using assms by (simp add: nonblank_lines_single)
qed

lemma tail_reads_range:
  assumes "files s f = Some content" and "stored_offset s f < length content"
  shows "tailSessionFile parse f a s
         = forEach_line parse a (nonblank_lines (drop (stored_offset s f) content))
             (s\<lparr>sessionFileOffsets := (sessionFileOffsets s)(f \<mapsto> length content)\<rparr>)"
  using assms
  by (simp add: tailSessionFile_def tailSessionFile_open_def tailSessionFile_end_def Let_def
        read_range_def)

lemma tail_not_grown:
  assumes "files s f = Some content" and "length content \<le> stored_offset s f"
  shows "tailSessionFile parse f a s
         = s\<lparr>sessionFileOffsets := (sessionFileOffsets s)(f \<mapsto> length content)\<rparr>"
  using assms by (simp add: tailSessionFile_def tailSessionFile_open_def Let_def)

lemma tail_after:
  assumes "files s f = Some content"
  shows "sessionFileOffsets (tailSessionFile parse f a s) f = Some (length content)"
    and "files (tailSessionFile parse f a s) = files s"
proof -
  let ?s = "s\<lparr>sessionFileOffsets := (sessionFileOffsets s)(f \<mapsto> length content)\<rparr>"
  have p: "publish_only ?s (forEach_line parse a ls ?s)" for ls
    by (rule forEach_line_publish_only)
  show "sessionFileOffsets (tailSessionFile parse f a s) f = Some (length content)"
  proof (cases "stored_offset s f < length content")
    case True
    then show ?thesis using tail_reads_range [OF assms True, of parse a] p
      by (simp add: publish_only_def)
  next
    case False
    then show ?thesis using tail_not_grown [OF assms, of parse a] by simp
  qed
  show "files (tailSessionFile parse f a s) = files s"
  proof (cases "stored_offset s f < length content")
    case True
    then show ?thesis using tail_reads_range [OF assms True, of parse a] p
      by (simp add: publish_only_def)
  next
    case False
    then show ?thesis using tail_not_grown [OF assms, of parse a] by simp
  qed
qed

lemma tail_then_append:
  assumes "files s f = Some content" and "appended \<noteq> []"
  shows "tailSessionFile parse f a
           ((tailSessionFile parse f a s)\<lparr>files := (files s)(f \<mapsto> content @ appended)\<rparr>)
         = forEach_line parse a (nonblank_lines appended)
             ((tailSessionFile parse f a s)
                \<lparr>files := (files s)(f \<mapsto> content @ appended),
                 sessionFileOffsets := (sessionFileOffsets (tailSessionFile parse f a s))
                                         (f \<mapsto> length content + length appended)\<rparr>)"
proof -
  let ?s1 = "(tailSessionFile parse f a s)\<lparr>files := (files s)(f \<mapsto> content @ appended)\<rparr>"
  have f1: "files ?s1 f = Some (content @ appended)" by simp
  have o1: "stored_offset ?s1 f = length content"
    using tail_after(1) [OF assms(1), of parse a] by (simp add: stored_offset_def)
  have "stored_offset ?s1 f < length (content @ appended)" using o1 assms(2) by simp
  from tail_reads_range [OF f1 this, of parse a] o1 show ?thesis by simp
qed

lemma eventTail_reads_range:
  assumes "files s EVENTS_FILE = Some content" and "lastEventSize s < length content"
  shows "eventTail_change parse s
         = forEach_event_line parse (nonblank_lines (drop (lastEventSize s) content))
             (s\<lparr>lastEventSize := length content\<rparr>)"
  using assms by (simp add: eventTail_change_def events_size_def Let_def read_range_def)

lemma broadcastEvent_frame [simp]:
  "files (broadcastEvent event s) = files s"
  "lastEventSize (broadcastEvent event s) = lastEventSize s"
  by (simp_all add: broadcastEvent_def)

lemma forEach_event_line_frame:
  "files (forEach_event_line parse ls s) = files s"
  "lastEventSize (forEach_event_line parse ls s) = lastEventSize s"
  by (induction ls arbitrary: s; simp split: option.splits)+

lemma eventTail_not_grown:
  assumes "files s EVENTS_FILE = Some content" and "length content \<le> lastEventSize s"
  shows "eventTail_change parse s = s\<lparr>lastEventSize := length content\<rparr>"
  using assms by (simp add: eventTail_change_def events_size_def Let_def)

lemma eventTail_after:
  assumes "files s EVENTS_FILE = Some content"
  shows "lastEventSize (eventTail_change parse s) = length content"
    and "files (eventTail_change parse s) = files s"
  using assms
  by (simp_all add: eventTail_change_def events_size_def Let_def forEach_event_line_frame)

lemma eventTail_then_append:
  assumes "files s EVENTS_FILE = Some content" and "appended \<noteq> []"
  shows "eventTail_change parse
           ((eventTail_change parse s)\<lparr>files := (files s)(EVENTS_FILE \<mapsto> content @ appended)\<rparr>)
         = forEach_event_line parse (nonblank_lines appended)
             ((eventTail_change parse s)
                \<lparr>files := (files s)(EVENTS_FILE \<mapsto> content @ appended),
                 lastEventSize := length content + length appended\<rparr>)"
proof -
  let ?s1 = "(eventTail_change parse s)\<lparr>files := (files s)(EVENTS_FILE \<mapsto> content @ appended)\<rparr>"
  have f1: "files ?s1 EVENTS_FILE = Some (content @ appended)" by simp
  have o1: "lastEventSize ?s1 = length content"
    using eventTail_after(1) [OF assms(1), of parse] by simp
  have "lastEventSize ?s1 < length (content @ appended)" using o1 assms(2) by simp
  from eventTail_reads_range [OF f1 this, of parse] o1 show ?thesis by simp
qed

lemma session_tail_unterminated:
  assumes "files s f = Some (old @ buf @ t)" and "stored_offset s f = length old"
    and "buf = [] \<or> last buf = CHR 0x0A" and "CHR 0x0A \<notin> set t" and "js_trim t \<noteq> []"
  shows "tailSessionFile parse f a s
         = forEach_line parse a (nonblank_lines buf @ [t])
             (s\<lparr>sessionFileOffsets := (sessionFileOffsets s)(f \<mapsto> length (old @ buf @ t))\<rparr>)"
proof -
  have t: "t \<noteq> []" using assms(5) by (auto simp: js_trim_def)
  have lt: "stored_offset s f < length (old @ buf @ t)" using assms(2) t by simp
  show ?thesis
    using tail_reads_range [OF assms(1) lt, of parse a] assms(2)
      nonblank_lines_unterminated [OF assms(3,4,5)] by simp
qed

lemma event_tail_unterminated:
  assumes "files s EVENTS_FILE = Some (old @ buf @ t)" and "lastEventSize s = length old"
    and "buf = [] \<or> last buf = CHR 0x0A" and "CHR 0x0A \<notin> set t" and "js_trim t \<noteq> []"
  shows "eventTail_change parse s
         = forEach_event_line parse (nonblank_lines buf @ [t])
             (s\<lparr>lastEventSize := length (old @ buf @ t)\<rparr>)"
proof -
  have t: "t \<noteq> []" using assms(5) by (auto simp: js_trim_def)
  have le: "lastEventSize s < length (old @ buf @ t)" using assms(2) t by simp
  show ?thesis
    using eventTail_reads_range [OF assms(1) le, of parse] assms(2)
      nonblank_lines_unterminated [OF assms(3,4,5)] by simp
qed

lemma forEach_line_snoc:
  "forEach_line parse a (ls @ [t]) s
   = (case parse t of
        None \<Rightarrow> forEach_line parse a ls s
      | Some obj \<Rightarrow> fst (processSessionLine obj a (forEach_line parse a ls s)))"
  by (induction ls arbitrary: s) (simp_all split: option.splits)

lemma forEach_event_line_snoc:
  "forEach_event_line parse (ls @ [t]) s
   = (case parse t of
        None \<Rightarrow> forEach_event_line parse ls s
      | Some event \<Rightarrow> broadcastEvent event (forEach_event_line parse ls s))"
  by (induction ls arbitrary: s) (simp_all split: option.splits)

subsection \<open>The sample line\<close>

lemma spawn_line_facts:
  "CHR 0x0A \<notin> set spawn_line"
  "js_trim spawn_line \<noteq> []"
  "length spawn_line = 174"
  by (simp_all add: spawn_line_def js_trim_def is_space_def)

lemma spawn_line_lines:
  "nonblank_lines spawn_line = [spawn_line]"
  "nonblank_lines (spawn_line @ [CHR 0x0A]) = [spawn_line]"
  using nonblank_lines_append [of spawn_line "[]"]
  by (simp_all add: nonblank_lines_single spawn_line_facts)

lemma rethrow_id:
  "(case r of (s1, Some e) \<Rightarrow> (s1, Some e) | (s1, None) \<Rightarrow> (s1, None))
   = (r :: server \<times> js_error option)"
  by (cases r) (simp split: option.splits)

lemma process_spawn_record:
  "processSessionLine spawn_record ''main'' s = broadcastA2AEvent spawn_event s"
  by (simp add: spawn_record_def spawn_event_def processSessionLine_def toolCallEvent_def
        js_or_def rethrow_id)

lemma publish_spawn_event_log:
  assumes "commsFile s = Missing" and "clients s = clients two_clients" and "io_log s = []"
  shows "io_log (fst (broadcastA2AEvent spawn_event s))
         = [Send 0 (JObj [(''type'', JStr ''agent_comms''), (''data'', spawn_event)]),
            WriteFile (JArr [stored_entry spawn_event])]"
proof -
  have r: "read_comms s = JArr []" using assms(1) by (simp add: read_comms_def)
  have n: "\<not> nullish spawn_event" by (simp add: spawn_event_def)
  have e: "JSON_stringify spawn_event = spawn_event" by (simp add: spawn_event_def)
  show ?thesis using broadcast_log(1) [OF r n] assms(2,3)
    by (simp add: e two_clients_def send_open_def slice_last_def)
qed

section \<open>Facts about subscribers\<close>

lemma received_append [simp]: "received c (xs @ ys) = received c xs @ received c ys"
  by (induction xs rule: received.induct) simp_all

lemma received_send_open_other:
  "c \<notin> cid ` set cs \<Longrightarrow> received c (send_open m cs) = []"
  by (induction cs) (auto simp: send_open_def)

lemma received_send_open_new:
  "c \<notin> cid ` set cs \<Longrightarrow>
   received c (send_open m (cs @ [\<lparr>cid = c, readyState = OPEN\<rparr>])) = [m]"
  using received_send_open_other [of c cs m] by (simp add: send_open_def)

lemma received_sends [simp]: "received c (map (\<lambda>e. Send c (g e)) es) = map g es"
  by (induction es) simp_all

lemma is_object_not_nullish: "is_object e \<Longrightarrow> \<not> nullish e"
  by (cases e) simp_all

lemma read_comms_stays_array:
  assumes "read_comms s = JArr comms" and "\<not> nullish event"
  shows "\<exists>comms'. read_comms (fst (broadcastA2AEvent event s)) = JArr comms'"
  using broadcast_log(3) [OF assms] assms(1) by (simp add: read_comms_def)

lemma live_delivery:
  assumes "read_comms s = JArr comms" and "list_all is_object es"
    and "\<And>m. received c (send_open m (clients s)) = replicate k m"
  shows "received c (io_log (publish_all es s))
         = received c (io_log s) @ concat (map (\<lambda>e. replicate k (live_message e)) es)"
  using assms
proof (induction es arbitrary: s comms)
  case Nil
  show ?case by simp
next
  case (Cons e es)
  let ?s = "fst (broadcastA2AEvent e s)"
  have n: "\<not> nullish e" using Cons.prems(2) by (simp add: is_object_not_nullish)
  obtain comms' where rc: "read_comms ?s = JArr comms'"
    using read_comms_stays_array [OF Cons.prems(1) n] by blast
  have cl: "clients ?s = clients s" by (simp add: broadcast_frame)
  have "received c (io_log (publish_all es ?s))
        = received c (io_log ?s) @ concat (map (\<lambda>e. replicate k (live_message e)) es)"
    using Cons.IH [OF rc] Cons.prems(2,3) cl by simp
  moreover have "received c (io_log ?s) = received c (io_log s) @ replicate k (live_message e)"
    using broadcast_log(1) [OF Cons.prems(1) n] Cons.prems(3) by (simp add: live_message_def)
  ultimately show ?case by simp
qed

lemma slice_last_map: "slice_last n (map f xs) = map f (slice_last n xs)"
  by (simp add: slice_last_def drop_map)

lemma slice_last_slice_last: "m \<le> n \<Longrightarrow> slice_last m (slice_last n xs) = slice_last m xs"
proof -
  assume "m \<le> n"
  then have "length xs - (length xs - n + m) + (length xs - n) = length xs - m" by arith
  then show ?thesis by (simp add: slice_last_def)
qed

lemma stored_entry_details:
  "js_get (stored_entry event) ''details'' = JSON_stringify event"
  by (simp add: stored_entry_object)

lemma comms_backfill_stored:
  "list_all is_object es \<Longrightarrow>
   comms_backfill c (map stored_entry es) = map (\<lambda>e. Send c (backfill_message e)) es"
proof (induction es)
  case Nil
  show ?case by simp
next
  case (Cons e es)
  obtain kvs where e: "e = JObj kvs" using Cons.prems by (cases e) simp_all
  have t: "truthy (JSON_stringify e)" using e by simp
  have n: "\<not> nullish (stored_entry e)" by (simp add: stored_entry_object)
  have u: "JSON_stringify e \<noteq> JUndefined" using e by simp
  show ?case using Cons t n u
    by (simp add: stored_entry_details js_or_def backfill_message_def stringify_idem)
qed

lemma backfill_comms_array:
  "read_comms s = JArr comms \<Longrightarrow> backfill_comms c s = comms_backfill c (slice_last 30 comms)"
  by (auto simp: read_comms_def backfill_comms_def slice_last_def
           split: comms_file.splits jsval.splits)

lemma connection_log:
  "io_log (connection parse c s)
   = io_log s @ backfill_antfarm parse c s @ backfill_comms c s @ [Send c backfill_complete]"
  by (simp add: connection_def Let_def backfill_antfarm_def backfill_comms_def
        backfill_complete_def)

lemma connection_frame:
  "clients (connection parse c s) = clients s @ [\<lparr>cid = c, readyState = OPEN\<rparr>]"
  "read_comms (connection parse c s) = read_comms s"
  by (simp_all add: connection_def Let_def read_comms_def)

lemma backfill_antfarm_files:
  "files s' = files s \<Longrightarrow> backfill_antfarm parse c s' = backfill_antfarm parse c s"
  by (simp add: backfill_antfarm_def)

lemma subscriber_receives:
  assumes "read_comms s = JArr []" and "commsWritable s"
    and "list_all is_object before" and "list_all is_object after"
    and "c \<notin> cid ` set (clients s)"
  shows "received c (io_log (publish_all after (connection parse c (publish_all before s))))
         = received c (io_log s)
           @ received c (backfill_antfarm parse c s)
           @ map backfill_message (slice_last 30 before)
           @ [backfill_complete]
           @ map live_message after"
proof -
  let ?s1 = "publish_all before s"
  let ?s2 = "connection parse c ?s1"
  have nb: "list_all (\<lambda>e. \<not> nullish e) before"
    using assms(3) by (simp add: list_all_iff is_object_not_nullish)
  have rc1: "read_comms ?s1 = JArr (slice_last 200 (map stored_entry before))"
    using publish_all_buffer [OF assms(1) _ _ assms(2) nb] by simp
  have "received c (io_log ?s1)
        = received c (io_log s) @ concat (map (\<lambda>e. replicate 0 (live_message e)) before)"
    using assms(5) by (intro live_delivery [OF assms(1,3)]) (simp add: received_send_open_other)
  then have l1: "received c (io_log ?s1) = received c (io_log s)" by simp
  have "backfill_comms c ?s1
        = comms_backfill c (map stored_entry (slice_last 30 before))"
    using backfill_comms_array [OF rc1]
    by (simp add: slice_last_slice_last slice_last_map)
  also have "\<dots> = map (\<lambda>e. Send c (backfill_message e)) (slice_last 30 before)"
    using assms(3) by (intro comms_backfill_stored) (auto simp: list_all_iff slice_last_def dest: in_set_dropD)
  finally have bc: "received c (backfill_comms c ?s1) = map backfill_message (slice_last 30 before)"
    by simp
  have ba: "backfill_antfarm parse c ?s1 = backfill_antfarm parse c s"
    by (rule backfill_antfarm_files) (simp add: publish_all_frame)
  have l2: "received c (io_log ?s2)
            = received c (io_log s) @ received c (backfill_antfarm parse c s)
              @ map backfill_message (slice_last 30 before) @ [backfill_complete]"
    using l1 bc ba by (simp add: connection_log)
  have rc2: "read_comms ?s2 = JArr (slice_last 200 (map stored_entry before))"
    using rc1 by (simp add: connection_frame)
  have cl: "clients ?s2 = clients s @ [\<lparr>cid = c, readyState = OPEN\<rparr>]"
    by (simp add: connection_frame publish_all_frame)
  have "received c (io_log (publish_all after ?s2))
        = received c (io_log ?s2) @ concat (map (\<lambda>e. replicate 1 (live_message e)) after)"
    using assms(5) cl
    by (intro live_delivery [OF rc2 assms(4)]) (simp add: received_send_open_new)
  moreover have "concat (map (\<lambda>e. replicate 1 (live_message e)) after) = map live_message after"
    by (induction after) simp_all
  ultimately show ?thesis using l2 by simp
qed

lemma stored_entry_explicit:
  "stored_entry event
   = JSON_stringify (JObj
       [(''timestamp'', js_get event ''ts''),
        (''from'', js_get event ''fromAgent''),
        (''to'', js_or (js_get event ''toAgent'') JNull),
        (''message'', js_or (js_or (js_or (js_get event ''task'') (js_get event ''message''))
                                   (js_get event ''error'')) (js_get event ''status'')),
        (''status'', js_or (js_get event ''status'') (JStr ''sent'')),
        (''event'', js_get event ''event''),
        (''details'', event)])"
  by (simp only: stored_entry_def comm_entry_def)

section \<open>Facts about the poll loops\<close>

lemma stored_update_set_update [simp]:
  "stored_update (set_update a k v s) a' k'
   = (if a' = a \<and> k' = k then v else stored_update s a' k')"
  by (auto simp: stored_update_def set_update_def split: option.splits)

lemma set_update_frame [simp]:
  "files (set_update a k v s) = files s"
  "sessionFileOffsets (set_update a k v s) = sessionFileOffsets s"
  "io_log (set_update a k v s) = io_log s"
  "commsFile (set_update a k v s) = commsFile s"
  "clients (set_update a k v s) = clients s"
  by (simp_all add: set_update_def)

lemma open_frame [simp]:
  "files (fst (tailSessionFile_open p a s)) = files s"
  "lastSessionUpdates (fst (tailSessionFile_open p a s)) = lastSessionUpdates s"
  "io_log (fst (tailSessionFile_open p a s)) = io_log s"
  "commsFile (fst (tailSessionFile_open p a s)) = commsFile s"
  "clients (fst (tailSessionFile_open p a s)) = clients s"
  by (simp_all add: tailSessionFile_open_def Let_def split: option.splits)




lemma forEach_session_skip:
  "\<not> nullish v \<Longrightarrow> \<not> session_changed s a (k, v) \<Longrightarrow>
   forEach_session a ((k, v) # es) s = forEach_session a es s"
  by simp




















lemma stored_offset_set_update [simp]:
  "stored_offset (set_update a k v s) p = stored_offset s p"
  by (simp add: stored_offset_def)

lemma stored_offset_upd [simp]:
  "stored_offset (s\<lparr>sessionFileOffsets := (sessionFileOffsets s)(p \<mapsto> n)\<rparr>) q
   = (if q = p then n else stored_offset s q)"
  by (simp add: stored_offset_def)









lemma tailed_not_grown_Nil [simp]: "\<not> tailed_not_grown s a [] q"
  by (simp add: tailed_not_grown_def)






section \<open>Event extraction\<close>

text \<open>
  Claim C6. Processing the sample record for agent \<^verbatim>\<open>main\<close> is one call of
  \<^verbatim>\<open>broadcastA2AEvent\<close>, with an event whose timestamp is 1000, whose sender is
  \<^verbatim>\<open>main\<close>, whose target is \<^verbatim>\<open>ops\<close>, whose kind is \<^verbatim>\<open>agent.spawn\<close> (the spawn request)
  and whose excerpt, the field \<^verbatim>\<open>task\<close>, is \<^verbatim>\<open>build report\<close>.
\<close>

theorem classification_spawn_request:
  "processSessionLine spawn_record ''main'' s = broadcastA2AEvent spawn_event s
   \<and> js_get spawn_event ''ts'' = JNum 1000
   \<and> js_get spawn_event ''fromAgent'' = JStr ''main''
   \<and> js_get spawn_event ''toAgent'' = JStr ''ops''
   \<and> js_get spawn_event ''event'' = JStr ''agent.spawn''
   \<and> js_get spawn_event ''task'' = JStr ''build report''"
  by (simp add: process_spawn_record) (simp add: spawn_event_def)

text \<open>
  Claim C7. A record of type \<^verbatim>\<open>message\<close> whose message has role \<^verbatim>\<open>toolResult\<close> and tool name
  \<^verbatim>\<open>sessions_spawn\<close> or \<^verbatim>\<open>sessions_send\<close> is published as one event. When the status of
  its details is \<^verbatim>\<open>error\<close> or \<^verbatim>\<open>forbidden\<close> the event is \<^verbatim>\<open>agent.error\<close>, for either tool,
  and carries the error text of the details (or \<^verbatim>\<open>unknown error\<close>); otherwise it is
  \<^verbatim>\<open>agent.spawn_ok\<close> for the spawn tool and \<^verbatim>\<open>agent.send_ok\<close> for the send tool.
\<close>

theorem tool_result_classification:
  assumes "js_get obj ''type'' = JStr ''message''"
    and "js_get (js_get obj ''message'') ''role'' = JStr ''toolResult''"
    and "js_get (js_get obj ''message'') ''toolName'' = JStr tool"
    and "tool = ''sessions_spawn'' \<or> tool = ''sessions_send''"
    and "status = js_get (js_or (js_get (js_get obj ''message'') ''details'') (JObj [])) ''status''"
    and "err = js_get (js_or (js_get (js_get obj ''message'') ''details'') (JObj [])) ''error''"
  shows "processSessionLine obj agentId s
           = broadcastA2AEvent (toolResultEvent obj agentId (js_get obj ''message'')) s
         \<and> js_get (toolResultEvent obj agentId (js_get obj ''message'')) ''event''
           = JStr (if status = JStr ''error'' \<or> status = JStr ''forbidden'' then ''agent.error''
                   else if tool = ''sessions_spawn'' then ''agent.spawn_ok''
                   else ''agent.send_ok'')
         \<and> js_get (toolResultEvent obj agentId (js_get obj ''message'')) ''error''
           = (if status = JStr ''error'' \<or> status = JStr ''forbidden''
              then js_or err (JStr ''unknown error'') else JUndefined)
         \<and> js_get (toolResultEvent obj agentId (js_get obj ''message'')) ''fromAgent''
           = JStr agentId"
proof -
  let ?msg = "js_get obj ''message''"
  have obj: "\<not> nullish obj" using assms(1) by (cases obj) simp_all
  have msg: "truthy ?msg" using assms(2) by (cases ?msg) simp_all
  have "processSessionLine obj agentId s = broadcastA2AEvent (toolResultEvent obj agentId ?msg) s"
    using assms(1-4) obj msg by (auto simp: processSessionLine_def Let_def)
  moreover have "js_get (toolResultEvent obj agentId ?msg) ''event''
      = JStr (if status = JStr ''error'' \<or> status = JStr ''forbidden'' then ''agent.error''
              else if tool = ''sessions_spawn'' then ''agent.spawn_ok'' else ''agent.send_ok'')"
    using assms(3-5) by (auto simp: toolResultEvent_def Let_def)
  moreover have "js_get (toolResultEvent obj agentId ?msg) ''error''
      = (if status = JStr ''error'' \<or> status = JStr ''forbidden''
         then js_or err (JStr ''unknown error'') else JUndefined)"
    using assms(3-6) by (auto simp: toolResultEvent_def Let_def)
  moreover have "js_get (toolResultEvent obj agentId ?msg) ''fromAgent'' = JStr agentId"
    by (auto simp: toolResultEvent_def Let_def)
  ultimately show ?thesis by blast
qed

text \<open>A forbidden \<^verbatim>\<open>sessions_send\<close> result is an \<^verbatim>\<open>agent.error\<close> event.\<close>

theorem tool_result_classification_witness:
  "js_get send_error_record ''type'' = JStr ''message''
   \<and> js_get (js_get send_error_record ''message'') ''role'' = JStr ''toolResult''
   \<and> js_get (js_get send_error_record ''message'') ''toolName'' = JStr ''sessions_send''
   \<and> processSessionLine send_error_record ''ops'' server0
       = broadcastA2AEvent
           (toolResultEvent send_error_record ''ops'' (js_get send_error_record ''message'')) server0
   \<and> js_get (toolResultEvent send_error_record ''ops'' (js_get send_error_record ''message'')) ''event''
       = JStr ''agent.error''
   \<and> js_get (toolResultEvent send_error_record ''ops'' (js_get send_error_record ''message'')) ''error''
       = JStr ''not allowed''"
proof -
  have h1: "js_get send_error_record ''type'' = JStr ''message''"
    by (simp add: send_error_record_def)
  have h2: "js_get (js_get send_error_record ''message'') ''role'' = JStr ''toolResult''"
    by (simp add: send_error_record_def)
  have h3: "js_get (js_get send_error_record ''message'') ''toolName'' = JStr ''sessions_send''"
    by (simp add: send_error_record_def)
  have h4: "''sessions_send'' = ''sessions_spawn'' \<or> ''sessions_send'' = ''sessions_send''"
    by simp
  have h5: "JStr ''forbidden''
      = js_get (js_or (js_get (js_get send_error_record ''message'') ''details'') (JObj [])) ''status''"
    by (simp add: send_error_record_def js_or_def)
  have h6: "JStr ''not allowed''
      = js_get (js_or (js_get (js_get send_error_record ''message'') ''details'') (JObj [])) ''error''"
    by (simp add: send_error_record_def js_or_def)
  show ?thesis
    using h1 h2 h3 tool_result_classification [OF h1 h2 h3 h4 h5 h6, of "''ops''" server0]
    by (simp add: js_or_def)
qed

section \<open>The replay buffer and publishing\<close>

text \<open>
  Claim C4. Starting from an empty replay file (or none) that accepts writes, after
  publishing \<open>N\<close> events the persisted array holds one entry for each of the last \<open>200\<close>
  of them, in publish order, so \<open>min N 200\<close> entries; the oldest are dropped first. The
  entry of an event is the object written by \<^verbatim>\<open>comms.push\<close>, and its field \<^verbatim>\<open>details\<close> is
  the event.
\<close>

theorem bounded_replay:
  assumes "read_comms s = JArr []" and "commsWritable s"
    and "list_all (\<lambda>event. \<not> nullish event) events"
  shows "read_comms (publish_all events s)
           = JArr (map (\<lambda>event. JSON_stringify (JObj
                     [(''timestamp'', js_get event ''ts''),
                      (''from'', js_get event ''fromAgent''),
                      (''to'', js_or (js_get event ''toAgent'') JNull),
                      (''message'',
                         js_or (js_or (js_or (js_get event ''task'') (js_get event ''message''))
                                      (js_get event ''error'')) (js_get event ''status'')),
                      (''status'', js_or (js_get event ''status'') (JStr ''sent'')),
                      (''event'', js_get event ''event''),
                      (''details'', event)]))
                   (drop (length events - 200) events))
         \<and> map (\<lambda>entry. js_get entry ''details'') (elements (read_comms (publish_all events s)))
           = map JSON_stringify (drop (length events - 200) events)
         \<and> length (elements (read_comms (publish_all events s))) = min (length events) 200"
proof -
  let ?last = "drop (length events - 200) events"
  have "read_comms (publish_all events s) = JArr (slice_last 200 ([] @ map stored_entry events))"
    using assms by (intro publish_all_buffer) simp_all
  then have b: "read_comms (publish_all events s) = JArr (map stored_entry ?last)"
    by (simp add: slice_last_def drop_map)
  have c1: "read_comms (publish_all events s)
           = JArr (map (\<lambda>event. JSON_stringify (JObj
                     [(''timestamp'', js_get event ''ts''),
                      (''from'', js_get event ''fromAgent''),
                      (''to'', js_or (js_get event ''toAgent'') JNull),
                      (''message'',
                         js_or (js_or (js_or (js_get event ''task'') (js_get event ''message''))
                                      (js_get event ''error'')) (js_get event ''status'')),
                      (''status'', js_or (js_get event ''status'') (JStr ''sent'')),
                      (''event'', js_get event ''event''),
                      (''details'', event)])) ?last)"
    unfolding b by (rule arg_cong [where f = JArr], rule map_cong [OF refl])
      (rule stored_entry_explicit)
  have c2: "map (\<lambda>entry. js_get entry ''details'') (elements (read_comms (publish_all events s)))
            = map JSON_stringify ?last"
    unfolding b by (simp add: stored_entry_details comp_def)
  have c3: "length (elements (read_comms (publish_all events s))) = min (length events) 200"
    unfolding b by simp
  show ?thesis by (intro conjI c1 c2 c3)
qed

text \<open>
  201 publishes of events with the timestamps 0 to 200 on a fresh server leave the 200
  entries with the timestamps 1 to 200, in this order.
\<close>

theorem bounded_replay_witness:
  "read_comms server0 = JArr [] \<and> commsWritable server0
   \<and> list_all (\<lambda>event. \<not> nullish event) (numbered_events 201)
   \<and> map (\<lambda>entry. js_get (js_get entry ''details'') ''ts'')
         (elements (read_comms (publish_all (numbered_events 201) server0)))
       = map (\<lambda>i. JNum (int i)) [1..<201]
   \<and> map (\<lambda>entry. js_get entry ''timestamp'')
         (elements (read_comms (publish_all (numbered_events 201) server0)))
       = map (\<lambda>i. JNum (int i)) [1..<201]
   \<and> length (elements (read_comms (publish_all (numbered_events 201) server0))) = 200"
proof -
  have h1: "read_comms server0 = JArr []" by (simp add: read_comms_def server0_def)
  have h2: "commsWritable server0" by (simp add: server0_def)
  have h3: "list_all (\<lambda>event. \<not> nullish event) (numbered_events 201)"
    by (simp add: list_all_iff numbered_events_def numbered_event_def)
  note th = bounded_replay [OF h1 h2 h3]
  have d: "drop (length (numbered_events 201) - 200) (numbered_events 201)
           = map numbered_event [1..<201]"
    by (simp add: numbered_events_def drop_map)
  have "map (\<lambda>entry. js_get (js_get entry ''details'') ''ts'')
          (elements (read_comms (publish_all (numbered_events 201) server0)))
        = map (\<lambda>d. js_get d ''ts'')
            (map (\<lambda>entry. js_get entry ''details'')
               (elements (read_comms (publish_all (numbered_events 201) server0))))"
    by (simp add: comp_def)
  also have "\<dots> = map (\<lambda>d. js_get d ''ts'') (map JSON_stringify (map numbered_event [1..<201]))"
    by (simp only: th [THEN conjunct2, THEN conjunct1] d)
  also have "\<dots> = map (\<lambda>i. JNum (int i)) [1..<201]"
    by (simp add: comp_def numbered_event_def)
  finally have c1: "map (\<lambda>entry. js_get (js_get entry ''details'') ''ts'')
         (elements (read_comms (publish_all (numbered_events 201) server0)))
       = map (\<lambda>i. JNum (int i)) [1..<201]" .
  have c2: "map (\<lambda>entry. js_get entry ''timestamp'')
         (elements (read_comms (publish_all (numbered_events 201) server0)))
       = map (\<lambda>i. JNum (int i)) [1..<201]"
    by (simp only: th [THEN conjunct1] d) (simp add: comp_def numbered_event_def js_or_def)
  have c3: "length (elements (read_comms (publish_all (numbered_events 201) server0))) = 200"
    using th [THEN conjunct2, THEN conjunct2] by (simp add: numbered_events_def)
  show ?thesis by (intro conjI h1 h2 h3 c1 c2 c3)
qed

text \<open>
  Claim C5, as the code has it. When the replay file is absent, unreadable or an array,
  a publish first sends the message to every client of \<^verbatim>\<open>wss.clients\<close> whose state is
  \<^verbatim>\<open>OPEN\<close>, in the order of the set, and to no other client; only then it appends the
  entry, keeps the last 200, and writes the file. It leaves the set of clients as it is, and
  nothing is kept for a client that was skipped.
\<close>

theorem publish_delivers_then_persists:
  assumes "read_comms s = JArr comms" and "\<not> nullish event"
  shows "io_log (fst (broadcastA2AEvent event s))
           = io_log s
             @ map (\<lambda>c. Send (cid c)
                     (JObj [(''type'', JStr ''agent_comms''), (''data'', JSON_stringify event)]))
                   (filter (\<lambda>c. readyState c = OPEN) (clients s))
             @ [WriteFile (JArr (drop (Suc (length comms) - 200)
                                   (stringify_elements comms @ [stored_entry event])))]
         \<and> commsFile (fst (broadcastA2AEvent event s))
           = (if commsWritable s
              then Parsed (JArr (drop (Suc (length comms) - 200)
                                   (stringify_elements comms @ [stored_entry event])))
              else commsFile s)
         \<and> clients (fst (broadcastA2AEvent event s)) = clients s
         \<and> snd (broadcastA2AEvent event s) = None"
  using broadcast_log [OF assms] 
  by (simp add: slice_last_def send_open_def broadcast_frame)

text \<open>One open and one closed socket: one send, then one write.\<close>

theorem publish_delivers_then_persists_witness:
  "read_comms two_clients = JArr [] \<and> \<not> nullish spawn_event
   \<and> io_log (fst (broadcastA2AEvent spawn_event two_clients))
       = [Send 0 (JObj [(''type'', JStr ''agent_comms''), (''data'', spawn_event)]),
          WriteFile (JArr [stored_entry spawn_event])]
   \<and> commsFile (fst (broadcastA2AEvent spawn_event two_clients))
       = Parsed (JArr [stored_entry spawn_event])"
proof -
  have h1: "read_comms two_clients = JArr []"
    by (simp add: read_comms_def two_clients_def server0_def)
  have h2: "\<not> nullish spawn_event" by (simp add: spawn_event_def)
  have e: "JSON_stringify spawn_event = spawn_event" by (simp add: spawn_event_def)
  show ?thesis
    using h1 h2 publish_delivers_then_persists [OF h1 h2]
    by (simp add: e two_clients_def server0_def)
qed

text \<open>
  Claim C5 as stated (persist first, then deliver) fails: with one open client the send is
  the first call the server makes.
\<close>

theorem publish_order_counterexample:
  "\<not> persisted_before_delivery (io_log (fst (broadcastA2AEvent spawn_event two_clients)))"
  by (simp add: persisted_before_delivery_def broadcastA2AEvent_def read_comms_def
         two_clients_def server0_def spawn_event_def send_open_def Let_def)

text \<open>
  Claim C10. When the replay file is missing or is not JSON, a publish throws nothing,
  sends the event to every open client, and writes an array that holds the entry of the
  new event alone; when the write succeeds that array is the new content of the file, and
  the \<^verbatim>\<open>details\<close> of its only entry is the published event.
\<close>

theorem publish_resets_unreadable_replay:
  assumes "commsFile s = Missing \<or> commsFile s = Unparsable" and "\<not> nullish event"
  shows "snd (broadcastA2AEvent event s) = None
         \<and> io_log (fst (broadcastA2AEvent event s))
           = io_log s
             @ map (\<lambda>c. Send (cid c)
                     (JObj [(''type'', JStr ''agent_comms''), (''data'', JSON_stringify event)]))
                   (filter (\<lambda>c. readyState c = OPEN) (clients s))
             @ [WriteFile (JArr [JSON_stringify (JObj
                  [(''timestamp'', js_get event ''ts''),
                   (''from'', js_get event ''fromAgent''),
                   (''to'', js_or (js_get event ''toAgent'') JNull),
                   (''message'',
                      js_or (js_or (js_or (js_get event ''task'') (js_get event ''message''))
                                   (js_get event ''error'')) (js_get event ''status'')),
                   (''status'', js_or (js_get event ''status'') (JStr ''sent'')),
                   (''event'', js_get event ''event''),
                   (''details'', event)])])]
         \<and> (commsWritable s \<longrightarrow>
              commsFile (fst (broadcastA2AEvent event s))
              = Parsed (JArr [JSON_stringify (JObj
                  [(''timestamp'', js_get event ''ts''),
                   (''from'', js_get event ''fromAgent''),
                   (''to'', js_or (js_get event ''toAgent'') JNull),
                   (''message'',
                      js_or (js_or (js_or (js_get event ''task'') (js_get event ''message''))
                                   (js_get event ''error'')) (js_get event ''status'')),
                   (''status'', js_or (js_get event ''status'') (JStr ''sent'')),
                   (''event'', js_get event ''event''),
                   (''details'', event)])])
              \<and> map (\<lambda>entry. js_get entry ''details'')
                    (elements (read_comms (fst (broadcastA2AEvent event s))))
                = [JSON_stringify event])"
proof -
  have r: "read_comms s = JArr []" using assms(1) by (auto simp: read_comms_def)
  note l = broadcast_log [OF r assms(2)]
  have c1: "snd (broadcastA2AEvent event s) = None" by (rule l(2))
  have c2: "io_log (fst (broadcastA2AEvent event s))
           = io_log s
             @ map (\<lambda>c. Send (cid c)
                     (JObj [(''type'', JStr ''agent_comms''), (''data'', JSON_stringify event)]))
                   (filter (\<lambda>c. readyState c = OPEN) (clients s))
             @ [WriteFile (JArr [stored_entry event])]"
    using l(1) by (simp add: slice_last_def send_open_def)
  have c3: "commsWritable s \<longrightarrow>
              commsFile (fst (broadcastA2AEvent event s)) = Parsed (JArr [stored_entry event])
              \<and> map (\<lambda>entry. js_get entry ''details'')
                    (elements (read_comms (fst (broadcastA2AEvent event s))))
                = [JSON_stringify event]"
    using l(3) by (simp add: slice_last_def read_comms_def stored_entry_details)
  show ?thesis using c1 c2 c3 by (simp only: stored_entry_explicit) 
qed

text \<open>A corrupt replay file, one open socket.\<close>

theorem publish_resets_unreadable_replay_witness:
  "(commsFile garbled_replay = Missing \<or> commsFile garbled_replay = Unparsable)
   \<and> \<not> nullish spawn_event \<and> commsWritable garbled_replay
   \<and> snd (broadcastA2AEvent spawn_event garbled_replay) = None
   \<and> io_log (fst (broadcastA2AEvent spawn_event garbled_replay))
       = [Send 0 (JObj [(''type'', JStr ''agent_comms''), (''data'', spawn_event)]),
          WriteFile (JArr [JObj
            [(''timestamp'', JNum 1000), (''from'', JStr ''main''), (''to'', JStr ''ops''),
             (''message'', JStr ''build report''), (''status'', JStr ''sent''),
             (''event'', JStr ''agent.spawn''), (''details'', spawn_event)]])]
   \<and> commsFile (fst (broadcastA2AEvent spawn_event garbled_replay))
       = Parsed (JArr [JObj
            [(''timestamp'', JNum 1000), (''from'', JStr ''main''), (''to'', JStr ''ops''),
             (''message'', JStr ''build report''), (''status'', JStr ''sent''),
             (''event'', JStr ''agent.spawn''), (''details'', spawn_event)]])
   \<and> map (\<lambda>entry. js_get entry ''details'')
         (elements (read_comms (fst (broadcastA2AEvent spawn_event garbled_replay))))
       = [spawn_event]"
proof -
  have h1: "commsFile garbled_replay = Missing \<or> commsFile garbled_replay = Unparsable"
    by (simp add: garbled_replay_def)
  have h2: "\<not> nullish spawn_event" by (simp add: spawn_event_def)
  have h3: "commsWritable garbled_replay"
    by (simp add: garbled_replay_def two_clients_def server0_def)
  have e: "JSON_stringify spawn_event = spawn_event" by (simp add: spawn_event_def)
  have entry: "JSON_stringify (JObj
      [(''timestamp'', js_get spawn_event ''ts''),
       (''from'', js_get spawn_event ''fromAgent''),
       (''to'', js_or (js_get spawn_event ''toAgent'') JNull),
       (''message'',
          js_or (js_or (js_or (js_get spawn_event ''task'') (js_get spawn_event ''message''))
                       (js_get spawn_event ''error'')) (js_get spawn_event ''status'')),
       (''status'', js_or (js_get spawn_event ''status'') (JStr ''sent'')),
       (''event'', js_get spawn_event ''event''),
       (''details'', spawn_event)])
     = JObj [(''timestamp'', JNum 1000), (''from'', JStr ''main''), (''to'', JStr ''ops''),
             (''message'', JStr ''build report''), (''status'', JStr ''sent''),
             (''event'', JStr ''agent.spawn''), (''details'', spawn_event)]"
    by (simp add: e) (simp add: spawn_event_def js_or_def)
  note th = publish_resets_unreadable_replay [OF h1 h2]
  note c1 = th [THEN conjunct1]
  have c2: "io_log (fst (broadcastA2AEvent spawn_event garbled_replay))
       = [Send 0 (JObj [(''type'', JStr ''agent_comms''), (''data'', spawn_event)]),
          WriteFile (JArr [JObj
            [(''timestamp'', JNum 1000), (''from'', JStr ''main''), (''to'', JStr ''ops''),
             (''message'', JStr ''build report''), (''status'', JStr ''sent''),
             (''event'', JStr ''agent.spawn''), (''details'', spawn_event)]])]"
    using th [THEN conjunct2, THEN conjunct1]
    by (simp only: entry e) (simp add: garbled_replay_def two_clients_def server0_def)
  note w = th [THEN conjunct2, THEN conjunct2, THEN mp, OF h3]
  have c3: "commsFile (fst (broadcastA2AEvent spawn_event garbled_replay))
       = Parsed (JArr [JObj
            [(''timestamp'', JNum 1000), (''from'', JStr ''main''), (''to'', JStr ''ops''),
             (''message'', JStr ''build report''), (''status'', JStr ''sent''),
             (''event'', JStr ''agent.spawn''), (''details'', spawn_event)]])"
    using w [THEN conjunct1] by (simp only: entry)
  have c4: "map (\<lambda>entry. js_get entry ''details'')
         (elements (read_comms (fst (broadcastA2AEvent spawn_event garbled_replay))))
       = [spawn_event]"
    using w [THEN conjunct2] by (simp only: e)
  show ?thesis by (intro conjI h1 h2 h3 c1 c2 c3 c4)
qed

section \<open>Subscribing\<close>

text \<open>
  Claim C3, as the code has it. Let \<open>before\<close> be the events published since the replay
  file was empty (the file accepts writes), let a new socket \<open>c\<close> connect, and let \<open>after\<close>
  be published then. The socket receives the backfill of the shared events file, then the
  last \<open>min N 30\<close> events of \<open>before\<close> tagged as backfill, in publish order, then one
  backfill-complete marker, then every event of \<open>after\<close> once, in publish order.
\<close>

theorem backfill_then_live:
  assumes "read_comms s = JArr []" and "commsWritable s"
    and "list_all is_object before" and "list_all is_object after"
    and "c \<notin> cid ` set (clients s)"
  shows "received c (io_log (publish_all after (connection parse c (publish_all before s))))
         = received c (io_log s)
           @ received c (backfill_antfarm parse c s)
           @ map backfill_message (drop (length before - 30) before)
           @ [backfill_complete]
           @ map live_message after"
  using subscriber_receives [OF assms] by (simp add: slice_last_def)

text \<open>Two events before the connection of socket 7, one after it.\<close>

theorem backfill_then_live_witness:
  "read_comms two_clients = JArr [] \<and> commsWritable two_clients
   \<and> list_all is_object [spawn_event, toolResultEvent send_error_record ''ops'' (js_get send_error_record ''message'')]
   \<and> list_all is_object [spawn_event]
   \<and> 7 \<notin> cid ` set (clients two_clients)
   \<and> received 7 (io_log (publish_all [spawn_event]
         (connection sample_parse 7
            (publish_all [spawn_event,
               toolResultEvent send_error_record ''ops'' (js_get send_error_record ''message'')]
               two_clients))))
       = [backfill_message spawn_event,
          backfill_message (toolResultEvent send_error_record ''ops'' (js_get send_error_record ''message'')),
          backfill_complete,
          live_message spawn_event]"
proof -
  let ?e = "toolResultEvent send_error_record ''ops'' (js_get send_error_record ''message'')"
  have h1: "read_comms two_clients = JArr []"
    by (simp add: read_comms_def two_clients_def server0_def)
  have h2: "commsWritable two_clients" by (simp add: two_clients_def server0_def)
  have h3: "list_all is_object [spawn_event, ?e]"
    by (simp add: spawn_event_def toolResultEvent_def send_error_record_def js_or_def)
  have h4: "list_all is_object [spawn_event]" by (simp add: spawn_event_def)
  have h5: "7 \<notin> cid ` set (clients two_clients)" by (simp add: two_clients_def)
  have a: "backfill_antfarm sample_parse 7 two_clients = []"
    by (simp add: backfill_antfarm_def two_clients_def server0_def)
  have l: "io_log two_clients = []" by (simp add: two_clients_def server0_def)
  from backfill_then_live [OF h1 h2 h3 h4 h5, of sample_parse]
  have c: "received 7 (io_log (publish_all [spawn_event]
         (connection sample_parse 7 (publish_all [spawn_event, ?e] two_clients))))
       = [backfill_message spawn_event, backfill_message ?e, backfill_complete,
          live_message spawn_event]"
    by (simp add: a l del: publish_all_Cons publish_all_Nil)
  show ?thesis by (intro conjI h1 h2 h3 h4 h5 c)
qed

text \<open>
  Claim C3 as stated fails for \<open>N = 31 \<le> 200\<close>: the new subscriber receives 30 backfill
  events, not 31.
\<close>

theorem backfill_window_counterexample:
  "length (replicate 31 spawn_event) = 31
   \<and> received 7 (io_log (connection sample_parse 7 (publish_all (replicate 31 spawn_event) server0)))
       = replicate 30 (backfill_message spawn_event) @ [backfill_complete]"
proof -
  have h1: "read_comms server0 = JArr []" by (simp add: read_comms_def server0_def)
  have h2: "commsWritable server0" by (simp add: server0_def)
  have h3: "list_all is_object (replicate 31 spawn_event)"
    by (simp add: list_all_iff spawn_event_def)
  have h5: "7 \<notin> cid ` set (clients server0)" by (simp add: server0_def)
  have a: "backfill_antfarm sample_parse 7 server0 = []"
    by (simp add: backfill_antfarm_def server0_def)
  have l: "io_log server0 = []" by (simp add: server0_def)
  have d: "slice_last 30 (replicate 31 spawn_event) = replicate 30 spawn_event"
    by (simp add: slice_last_def)
  from subscriber_receives [OF h1 h2 h3 _ h5, of "[]" sample_parse]
  have "received 7 (io_log (connection sample_parse 7 (publish_all (replicate 31 spawn_event) server0)))
       = replicate 30 (backfill_message spawn_event) @ [backfill_complete]"
    by (simp add: a l d del: publish_all_Cons)
  then show ?thesis by simp
qed

section \<open>Tailing\<close>

text \<open>
  Claim C1, as the code has it, for each of the two tailed files on its own. When the
  unread part of a session log ends in a non-blank line \<open>t\<close> without a terminating
  newline, a tail call hands \<open>t\<close> to the parser as the last line, after the complete lines
  before it, and sets the stored offset to the file size, past \<open>t\<close>; a later tail call
  after an append reads the appended bytes alone, from that offset on. The same holds for
  the listener of the shared events file and its \<^verbatim>\<open>lastEventSize\<close>.
\<close>

theorem tail_consumes_unterminated_line:
  "(files s f = Some (old @ buf @ t) \<and> stored_offset s f = length old
      \<and> (buf = [] \<or> last buf = CHR 0x0A) \<and> CHR 0x0A \<notin> set t \<and> js_trim t \<noteq> [] \<longrightarrow>
      tailSessionFile parse f a s
        = (case parse t of
             None \<Rightarrow>
               forEach_line parse a (nonblank_lines buf)
                 (s\<lparr>sessionFileOffsets := (sessionFileOffsets s)(f \<mapsto> length (old @ buf @ t))\<rparr>)
           | Some obj \<Rightarrow>
               fst (processSessionLine obj a
                 (forEach_line parse a (nonblank_lines buf)
                    (s\<lparr>sessionFileOffsets :=
                         (sessionFileOffsets s)(f \<mapsto> length (old @ buf @ t))\<rparr>))))
      \<and> sessionFileOffsets (tailSessionFile parse f a s) f = Some (length (old @ buf @ t))
      \<and> (appended \<noteq> [] \<longrightarrow>
           tailSessionFile parse f a
             ((tailSessionFile parse f a s)\<lparr>files := (files s)(f \<mapsto> (old @ buf @ t) @ appended)\<rparr>)
           = forEach_line parse a (nonblank_lines appended)
               ((tailSessionFile parse f a s)
                  \<lparr>files := (files s)(f \<mapsto> (old @ buf @ t) @ appended),
                   sessionFileOffsets := (sessionFileOffsets (tailSessionFile parse f a s))
                                           (f \<mapsto> length (old @ buf @ t) + length appended)\<rparr>)))
   \<and> (files s EVENTS_FILE = Some (old @ buf @ t) \<and> lastEventSize s = length old
      \<and> (buf = [] \<or> last buf = CHR 0x0A) \<and> CHR 0x0A \<notin> set t \<and> js_trim t \<noteq> [] \<longrightarrow>
      eventTail_change parse s
        = (case parse t of
             None \<Rightarrow>
               forEach_event_line parse (nonblank_lines buf)
                 (s\<lparr>lastEventSize := length (old @ buf @ t)\<rparr>)
           | Some event \<Rightarrow>
               broadcastEvent event
                 (forEach_event_line parse (nonblank_lines buf)
                    (s\<lparr>lastEventSize := length (old @ buf @ t)\<rparr>)))
      \<and> lastEventSize (eventTail_change parse s) = length (old @ buf @ t)
      \<and> (appended \<noteq> [] \<longrightarrow>
           eventTail_change parse
             ((eventTail_change parse s)
                \<lparr>files := (files s)(EVENTS_FILE \<mapsto> (old @ buf @ t) @ appended)\<rparr>)
           = forEach_event_line parse (nonblank_lines appended)
               ((eventTail_change parse s)
                  \<lparr>files := (files s)(EVENTS_FILE \<mapsto> (old @ buf @ t) @ appended),
                   lastEventSize := length (old @ buf @ t) + length appended\<rparr>)))"
proof (intro conjI impI; (elim conjE)?)
  assume a: "files s f = Some (old @ buf @ t)" "stored_offset s f = length old"
    "buf = [] \<or> last buf = CHR 0x0A" "CHR 0x0A \<notin> set t" "js_trim t \<noteq> []"
  show "tailSessionFile parse f a s
        = (case parse t of
             None \<Rightarrow>
               forEach_line parse a (nonblank_lines buf)
                 (s\<lparr>sessionFileOffsets := (sessionFileOffsets s)(f \<mapsto> length (old @ buf @ t))\<rparr>)
           | Some obj \<Rightarrow>
               fst (processSessionLine obj a
                 (forEach_line parse a (nonblank_lines buf)
                    (s\<lparr>sessionFileOffsets :=
                         (sessionFileOffsets s)(f \<mapsto> length (old @ buf @ t))\<rparr>))))"
    by (simp only: session_tail_unterminated [OF a] forEach_line_snoc)
  show "sessionFileOffsets (tailSessionFile parse f a s) f = Some (length (old @ buf @ t))"
    by (rule tail_after(1) [OF a(1)])
next
  assume a: "files s f = Some (old @ buf @ t)" and n: "appended \<noteq> []"
  show "tailSessionFile parse f a
          ((tailSessionFile parse f a s)\<lparr>files := (files s)(f \<mapsto> (old @ buf @ t) @ appended)\<rparr>)
        = forEach_line parse a (nonblank_lines appended)
            ((tailSessionFile parse f a s)
               \<lparr>files := (files s)(f \<mapsto> (old @ buf @ t) @ appended),
                sessionFileOffsets := (sessionFileOffsets (tailSessionFile parse f a s))
                                        (f \<mapsto> length (old @ buf @ t) + length appended)\<rparr>)"
    by (rule tail_then_append [OF a n])
next
  assume a: "files s EVENTS_FILE = Some (old @ buf @ t)" "lastEventSize s = length old"
    "buf = [] \<or> last buf = CHR 0x0A" "CHR 0x0A \<notin> set t" "js_trim t \<noteq> []"
  show "eventTail_change parse s
        = (case parse t of
             None \<Rightarrow>
               forEach_event_line parse (nonblank_lines buf)
                 (s\<lparr>lastEventSize := length (old @ buf @ t)\<rparr>)
           | Some event \<Rightarrow>
               broadcastEvent event
                 (forEach_event_line parse (nonblank_lines buf)
                    (s\<lparr>lastEventSize := length (old @ buf @ t)\<rparr>)))"
    by (simp only: event_tail_unterminated [OF a] forEach_event_line_snoc)
  show "lastEventSize (eventTail_change parse s) = length (old @ buf @ t)"
    by (rule eventTail_after(1) [OF a(1)])
next
  assume a: "files s EVENTS_FILE = Some (old @ buf @ t)" and n: "appended \<noteq> []"
  show "eventTail_change parse
          ((eventTail_change parse s)
             \<lparr>files := (files s)(EVENTS_FILE \<mapsto> (old @ buf @ t) @ appended)\<rparr>)
        = forEach_event_line parse (nonblank_lines appended)
            ((eventTail_change parse s)
               \<lparr>files := (files s)(EVENTS_FILE \<mapsto> (old @ buf @ t) @ appended),
                lastEventSize := length (old @ buf @ t) + length appended\<rparr>)"
    by (rule eventTail_then_append [OF a n])
qed

text \<open>Both logs consist of the sample line without a newline.\<close>

theorem tail_consumes_unterminated_line_witness:
  "files partial_write session_log = Some ([] @ [] @ spawn_line)
   \<and> stored_offset partial_write session_log = length ([] :: string)
   \<and> files partial_write EVENTS_FILE = Some ([] @ [] @ spawn_line)
   \<and> lastEventSize partial_write = length ([] :: string)
   \<and> CHR 0x0A \<notin> set spawn_line \<and> js_trim spawn_line \<noteq> []
   \<and> sample_parse spawn_line = Some spawn_record
   \<and> tailSessionFile sample_parse session_log ''main'' partial_write
       = fst (processSessionLine spawn_record ''main''
           (partial_write\<lparr>sessionFileOffsets :=
              (sessionFileOffsets partial_write)(session_log \<mapsto> length spawn_line)\<rparr>))
   \<and> sessionFileOffsets (tailSessionFile sample_parse session_log ''main'' partial_write) session_log
       = Some (length spawn_line)
   \<and> ''more'' \<noteq> []
   \<and> tailSessionFile sample_parse session_log ''main''
         ((tailSessionFile sample_parse session_log ''main'' partial_write)
            \<lparr>files := (files partial_write)(session_log \<mapsto> ([] @ [] @ spawn_line) @ ''more'')\<rparr>)
       = forEach_line sample_parse ''main'' (nonblank_lines ''more'')
           ((tailSessionFile sample_parse session_log ''main'' partial_write)
              \<lparr>files := (files partial_write)(session_log \<mapsto> ([] @ [] @ spawn_line) @ ''more''),
               sessionFileOffsets :=
                 (sessionFileOffsets (tailSessionFile sample_parse session_log ''main'' partial_write))
                 (session_log \<mapsto> length ([] @ [] @ spawn_line) + length ''more'')\<rparr>)
   \<and> eventTail_change sample_parse partial_write
       = broadcastEvent spawn_record (partial_write\<lparr>lastEventSize := length spawn_line\<rparr>)
   \<and> lastEventSize (eventTail_change sample_parse partial_write) = length spawn_line"
proof -
  have h1: "files partial_write session_log = Some ([] @ [] @ spawn_line)"
    by (simp add: partial_write_def session_log_def EVENTS_FILE_def)
  have h2: "stored_offset partial_write session_log = length ([] :: string)"
    by (simp add: partial_write_def two_clients_def server0_def stored_offset_def)
  have h3: "files partial_write EVENTS_FILE = Some ([] @ [] @ spawn_line)"
    by (simp add: partial_write_def)
  have h4: "lastEventSize partial_write = length ([] :: string)"
    by (simp add: partial_write_def two_clients_def server0_def)
  have h5: "([] :: string) = [] \<or> last ([] :: string) = CHR 0x0A" by simp
  note h7 = spawn_line_facts(1) and h8 = spawn_line_facts(2)
  note th = tail_consumes_unterminated_line [where s = partial_write and old = "[]" and buf = "[]"
      and t = spawn_line and parse = sample_parse and a = "''main''" and appended = "''more''"
      and f = session_log]
  have ses: "files partial_write session_log = Some ([] @ [] @ spawn_line)
      \<and> stored_offset partial_write session_log = length ([] :: string)
      \<and> (([] :: string) = [] \<or> last ([] :: string) = CHR 0x0A)
      \<and> CHR 0x0A \<notin> set spawn_line \<and> js_trim spawn_line \<noteq> []"
    by (intro conjI h1 h2 h5 h7 h8)
  have evt: "files partial_write EVENTS_FILE = Some ([] @ [] @ spawn_line)
      \<and> lastEventSize partial_write = length ([] :: string)
      \<and> (([] :: string) = [] \<or> last ([] :: string) = CHR 0x0A)
      \<and> CHR 0x0A \<notin> set spawn_line \<and> js_trim spawn_line \<noteq> []"
    by (intro conjI h3 h4 h5 h7 h8)
  note S = th [THEN conjunct1, THEN mp, OF ses]
  note E = th [THEN conjunct2, THEN mp, OF evt]
  have sp: "sample_parse spawn_line = Some spawn_record" by (simp add: sample_parse_def)
  from S [THEN conjunct1] have c1: "tailSessionFile sample_parse session_log ''main'' partial_write
       = fst (processSessionLine spawn_record ''main''
           (partial_write\<lparr>sessionFileOffsets :=
              (sessionFileOffsets partial_write)(session_log \<mapsto> length spawn_line)\<rparr>))"
    by (simp add: sp)
  from S [THEN conjunct2, THEN conjunct1] have c2: "sessionFileOffsets
        (tailSessionFile sample_parse session_log ''main'' partial_write) session_log
       = Some (length spawn_line)"
    by (simp del: forEach_line.simps forEach_event_line.simps)
  have h9: "''more'' \<noteq> []" by simp
  note c4 = S [THEN conjunct2, THEN conjunct2, THEN mp, OF h9]
  from E [THEN conjunct1] have c3: "eventTail_change sample_parse partial_write
       = broadcastEvent spawn_record (partial_write\<lparr>lastEventSize := length spawn_line\<rparr>)"
    by (simp add: sp)
  from E [THEN conjunct2, THEN conjunct1]
  have c5: "lastEventSize (eventTail_change sample_parse partial_write) = length spawn_line"
    by simp
  show ?thesis by (intro conjI h1 h2 h3 h4 h7 h8 sp c1 c2 h9 c4 c3 c5)
qed

text \<open>
  Claim C1 as stated fails: the session log holds the sample line without a newline; the
  tail call publishes its event and moves the offset to the end of the line.
\<close>

theorem unterminated_line_counterexample:
  "files partial_write session_log = Some spawn_line
   \<and> CHR 0x0A \<notin> set spawn_line
   \<and> sessionFileOffsets (tailSessionFile sample_parse session_log ''main'' partial_write) session_log
       = Some (length spawn_line)
   \<and> io_log (tailSessionFile sample_parse session_log ''main'' partial_write)
       = [Send 0 (JObj [(''type'', JStr ''agent_comms''), (''data'', spawn_event)]),
          WriteFile (JArr [stored_entry spawn_event])]"
proof -
  have f: "files partial_write session_log = Some spawn_line"
    by (simp add: partial_write_def session_log_def EVENTS_FILE_def)
  have o: "stored_offset partial_write session_log = 0"
    by (simp add: partial_write_def two_clients_def server0_def stored_offset_def)
  have lt: "stored_offset partial_write session_log < length spawn_line"
    using o spawn_line_facts(3) by simp
  let ?s = "partial_write\<lparr>sessionFileOffsets :=
              (sessionFileOffsets partial_write)(session_log \<mapsto> length spawn_line)\<rparr>"
  have t: "tailSessionFile sample_parse session_log ''main'' partial_write
           = fst (broadcastA2AEvent spawn_event ?s)"
    using tail_reads_range [OF f lt, of sample_parse "''main''"] o
    by (simp add: spawn_line_lines sample_parse_def process_spawn_record)
  have l: "io_log (fst (broadcastA2AEvent spawn_event ?s))
           = [Send 0 (JObj [(''type'', JStr ''agent_comms''), (''data'', spawn_event)]),
              WriteFile (JArr [stored_entry spawn_event])]"
    by (rule publish_spawn_event_log) (simp_all add: partial_write_def two_clients_def server0_def)
  show ?thesis using f t l tail_after(1) [OF f, of sample_parse "''main''"] spawn_line_facts(1)
    by simp
qed

text \<open>
  Claim C2, as the code has it. Whenever the size of a tailed file is at most the stored
  offset (so also when it is strictly less), the tail call sets the stored offset to the
  current size and reads nothing: the state is otherwise unchanged. When the file grows
  afterwards, the next tail call reads the appended bytes alone, from that size on, and
  none of the bytes before it. This holds for the session logs and for the shared events
  file (whose size counts as 0 while it does not exist).
\<close>

theorem tail_skips_file_not_grown:
  "(files s f = Some content \<and> length content \<le> stored_offset s f \<longrightarrow>
      tailSessionFile parse f a s
        = s\<lparr>sessionFileOffsets := (sessionFileOffsets s)(f \<mapsto> length content)\<rparr>
      \<and> (appended \<noteq> [] \<longrightarrow>
           tailSessionFile parse f a
             ((tailSessionFile parse f a s)\<lparr>files := (files s)(f \<mapsto> content @ appended)\<rparr>)
           = forEach_line parse a (nonblank_lines appended)
               (s\<lparr>files := (files s)(f \<mapsto> content @ appended),
                  sessionFileOffsets := (sessionFileOffsets s)
                                          (f \<mapsto> length content + length appended)\<rparr>)))
   \<and> (events_size s \<le> lastEventSize s \<longrightarrow>
      eventTail_change parse s = s\<lparr>lastEventSize := events_size s\<rparr>)
   \<and> (files s EVENTS_FILE = Some content \<and> length content \<le> lastEventSize s
        \<and> appended \<noteq> [] \<longrightarrow>
      eventTail_change parse
        ((eventTail_change parse s)\<lparr>files := (files s)(EVENTS_FILE \<mapsto> content @ appended)\<rparr>)
      = forEach_event_line parse (nonblank_lines appended)
          (s\<lparr>files := (files s)(EVENTS_FILE \<mapsto> content @ appended),
             lastEventSize := length content + length appended\<rparr>))"
proof (intro conjI impI; (elim conjE)?)
  assume a: "files s f = Some content" "length content \<le> stored_offset s f"
  show "tailSessionFile parse f a s
        = s\<lparr>sessionFileOffsets := (sessionFileOffsets s)(f \<mapsto> length content)\<rparr>"
    by (rule tail_not_grown [OF a])
next
  assume a: "files s f = Some content" "length content \<le> stored_offset s f"
    and n: "appended \<noteq> []"
  have t: "tailSessionFile parse f a s
           = s\<lparr>sessionFileOffsets := (sessionFileOffsets s)(f \<mapsto> length content)\<rparr>"
    by (rule tail_not_grown [OF a])
  show "tailSessionFile parse f a
          ((tailSessionFile parse f a s)\<lparr>files := (files s)(f \<mapsto> content @ appended)\<rparr>)
        = forEach_line parse a (nonblank_lines appended)
            (s\<lparr>files := (files s)(f \<mapsto> content @ appended),
               sessionFileOffsets := (sessionFileOffsets s)
                                       (f \<mapsto> length content + length appended)\<rparr>)"
    using tail_then_append [OF a(1) n, of parse a] by (simp add: t)
next
  assume "events_size s \<le> lastEventSize s"
  then show "eventTail_change parse s = s\<lparr>lastEventSize := events_size s\<rparr>"
    by (simp add: eventTail_change_def Let_def)
next
  assume a: "files s EVENTS_FILE = Some content" "length content \<le> lastEventSize s"
    and n: "appended \<noteq> []"
  have t: "eventTail_change parse s = s\<lparr>lastEventSize := length content\<rparr>"
    by (rule eventTail_not_grown [OF a])
  show "eventTail_change parse
          ((eventTail_change parse s)\<lparr>files := (files s)(EVENTS_FILE \<mapsto> content @ appended)\<rparr>)
        = forEach_event_line parse (nonblank_lines appended)
            (s\<lparr>files := (files s)(EVENTS_FILE \<mapsto> content @ appended),
               lastEventSize := length content + length appended\<rparr>)"
    using eventTail_then_append [OF a(1) n, of parse] by (simp add: t)
qed

text \<open>
  Both logs are 175 bytes long and the stored offsets are 1000; then the sample line is
  appended once more.
\<close>

theorem tail_skips_file_not_grown_witness:
  "files shrunk_log session_log = Some (spawn_line @ [CHR 0x0A])
   \<and> length (spawn_line @ [CHR 0x0A]) \<le> stored_offset shrunk_log session_log
   \<and> events_size shrunk_log \<le> lastEventSize shrunk_log
   \<and> files shrunk_log EVENTS_FILE = Some (spawn_line @ [CHR 0x0A])
   \<and> length (spawn_line @ [CHR 0x0A]) \<le> lastEventSize shrunk_log
   \<and> spawn_line @ [CHR 0x0A] \<noteq> []
   \<and> tailSessionFile sample_parse session_log ''main'' shrunk_log
       = shrunk_log\<lparr>sessionFileOffsets :=
           (sessionFileOffsets shrunk_log)(session_log \<mapsto> length (spawn_line @ [CHR 0x0A]))\<rparr>
   \<and> tailSessionFile sample_parse session_log ''main''
         ((tailSessionFile sample_parse session_log ''main'' shrunk_log)
            \<lparr>files := (files shrunk_log)
               (session_log \<mapsto> (spawn_line @ [CHR 0x0A]) @ (spawn_line @ [CHR 0x0A]))\<rparr>)
       = forEach_line sample_parse ''main'' (nonblank_lines (spawn_line @ [CHR 0x0A]))
           (shrunk_log\<lparr>files := (files shrunk_log)
                         (session_log \<mapsto> (spawn_line @ [CHR 0x0A]) @ (spawn_line @ [CHR 0x0A])),
                       sessionFileOffsets := (sessionFileOffsets shrunk_log)
                         (session_log \<mapsto> length (spawn_line @ [CHR 0x0A])
                                            + length (spawn_line @ [CHR 0x0A]))\<rparr>)
   \<and> eventTail_change sample_parse shrunk_log
       = shrunk_log\<lparr>lastEventSize := events_size shrunk_log\<rparr>
   \<and> eventTail_change sample_parse
         ((eventTail_change sample_parse shrunk_log)
            \<lparr>files := (files shrunk_log)
               (EVENTS_FILE \<mapsto> (spawn_line @ [CHR 0x0A]) @ (spawn_line @ [CHR 0x0A]))\<rparr>)
       = forEach_event_line sample_parse (nonblank_lines (spawn_line @ [CHR 0x0A]))
           (shrunk_log\<lparr>files := (files shrunk_log)
                         (EVENTS_FILE \<mapsto> (spawn_line @ [CHR 0x0A]) @ (spawn_line @ [CHR 0x0A])),
                       lastEventSize := length (spawn_line @ [CHR 0x0A])
                                        + length (spawn_line @ [CHR 0x0A])\<rparr>)"
proof -
  let ?c = "spawn_line @ [CHR 0x0A]"
  have h1: "files shrunk_log session_log = Some ?c"
    by (simp add: shrunk_log_def session_log_def EVENTS_FILE_def)
  have h2: "length ?c \<le> stored_offset shrunk_log session_log"
    by (simp add: shrunk_log_def stored_offset_def spawn_line_facts)
  have h3: "events_size shrunk_log \<le> lastEventSize shrunk_log"
    by (simp add: shrunk_log_def events_size_def spawn_line_facts)
  have h4: "files shrunk_log EVENTS_FILE = Some ?c" by (simp add: shrunk_log_def)
  have h5: "length ?c \<le> lastEventSize shrunk_log"
    by (simp add: shrunk_log_def spawn_line_facts)
  have h6: "?c \<noteq> []" by simp
  note th = tail_skips_file_not_grown [of shrunk_log session_log ?c sample_parse "''main''" ?c]
  have ses: "files shrunk_log session_log = Some ?c
             \<and> length ?c \<le> stored_offset shrunk_log session_log"
    by (intro conjI h1 h2)
  have evt: "files shrunk_log EVENTS_FILE = Some ?c \<and> length ?c \<le> lastEventSize shrunk_log
             \<and> ?c \<noteq> []"
    by (intro conjI h4 h5 h6)
  note S = th [THEN conjunct1, THEN mp, OF ses]
  note c1 = S [THEN conjunct1]
  note c2 = S [THEN conjunct2, THEN mp, OF h6]
  note c3 = th [THEN conjunct2, THEN conjunct1, THEN mp, OF h3]
  note c4 = th [THEN conjunct2, THEN conjunct2, THEN mp, OF evt]
  show ?thesis by (intro conjI h1 h2 h3 h4 h5 h6 c1 c2 c3 c4)
qed

text \<open>
  Claim C2 as stated fails: the log is shorter than the stored offset and holds one complete
  line; the tail call sets the offset to 175, not to 0, and publishes nothing, whereas a tail
  call from offset 0 publishes the event of the line.
\<close>

theorem truncation_counterexample:
  "files shrunk_log session_log = Some (spawn_line @ [CHR 0x0A])
   \<and> stored_offset shrunk_log session_log = 1000
   \<and> length (spawn_line @ [CHR 0x0A]) = 175
   \<and> sessionFileOffsets (tailSessionFile sample_parse session_log ''main'' shrunk_log) session_log
       = Some 175
   \<and> io_log (tailSessionFile sample_parse session_log ''main'' shrunk_log) = []
   \<and> io_log (tailSessionFile sample_parse session_log ''main'' shrunk_log_rewound)
       = [Send 0 (JObj [(''type'', JStr ''agent_comms''), (''data'', spawn_event)]),
          WriteFile (JArr [stored_entry spawn_event])]"
proof -
  have f: "files shrunk_log session_log = Some (spawn_line @ [CHR 0x0A])"
    by (simp add: shrunk_log_def session_log_def EVENTS_FILE_def)
  have o: "stored_offset shrunk_log session_log = 1000"
    by (simp add: shrunk_log_def stored_offset_def)
  have n: "length (spawn_line @ [CHR 0x0A]) = 175" by (simp add: spawn_line_facts)
  have le: "length (spawn_line @ [CHR 0x0A]) \<le> stored_offset shrunk_log session_log"
    using o n by simp
  have t: "tailSessionFile sample_parse session_log ''main'' shrunk_log
           = shrunk_log\<lparr>sessionFileOffsets :=
               (sessionFileOffsets shrunk_log)(session_log \<mapsto> length (spawn_line @ [CHR 0x0A]))\<rparr>"
    by (rule tail_not_grown [OF f le])
  have c4: "sessionFileOffsets (tailSessionFile sample_parse session_log ''main'' shrunk_log)
              session_log = Some 175"
    using t n by simp
  have c5: "io_log (tailSessionFile sample_parse session_log ''main'' shrunk_log) = []"
    using t by (simp add: shrunk_log_def two_clients_def server0_def)
  have f': "files shrunk_log_rewound session_log = Some (spawn_line @ [CHR 0x0A])"
    using f by (simp add: shrunk_log_rewound_def)
  have o': "stored_offset shrunk_log_rewound session_log = 0"
    by (simp add: shrunk_log_rewound_def stored_offset_def)
  have lt: "stored_offset shrunk_log_rewound session_log < length (spawn_line @ [CHR 0x0A])"
    using o' by simp
  let ?s = "shrunk_log_rewound\<lparr>sessionFileOffsets :=
              (sessionFileOffsets shrunk_log_rewound)
                (session_log \<mapsto> length (spawn_line @ [CHR 0x0A]))\<rparr>"
  have t': "tailSessionFile sample_parse session_log ''main'' shrunk_log_rewound
            = fst (broadcastA2AEvent spawn_event ?s)"
    using tail_reads_range [OF f' lt, of sample_parse "''main''"] o'
    by (simp add: spawn_line_lines sample_parse_def process_spawn_record)
  have "io_log (fst (broadcastA2AEvent spawn_event ?s))
           = [Send 0 (JObj [(''type'', JStr ''agent_comms''), (''data'', spawn_event)]),
              WriteFile (JArr [stored_entry spawn_event])]"
    by (rule publish_spawn_event_log)
       (simp_all add: shrunk_log_rewound_def shrunk_log_def two_clients_def server0_def)
  with t' have c6: "io_log (tailSessionFile sample_parse session_log ''main'' shrunk_log_rewound)
       = [Send 0 (JObj [(''type'', JStr ''agent_comms''), (''data'', spawn_event)]),
          WriteFile (JArr [stored_entry spawn_event])]"
    by simp
  show ?thesis by (intro conjI f o n c4 c5 c6)
qed

text \<open>
  Claim C9. When one of the lines of the tailed range is not JSON, the tail call has exactly
  the effect it has on the other lines alone (the line is skipped and nothing is published
  for it) and the stored offset is the file size, past the line. A second tail call on the
  unchanged file changes nothing, and one after an append reads the appended bytes only, so
  the line is not read again.
\<close>

theorem malformed_line_skipped:
  assumes "files s f = Some content" and "stored_offset s f < length content"
    and "nonblank_lines (drop (stored_offset s f) content) = before @ bad # after"
    and "parse bad = None"
  shows "tailSessionFile parse f a s
           = forEach_line parse a (before @ after)
               (s\<lparr>sessionFileOffsets := (sessionFileOffsets s)(f \<mapsto> length content)\<rparr>)
         \<and> sessionFileOffsets (tailSessionFile parse f a s) f = Some (length content)
         \<and> tailSessionFile parse f a (tailSessionFile parse f a s) = tailSessionFile parse f a s
         \<and> (appended \<noteq> [] \<longrightarrow>
              tailSessionFile parse f a
                ((tailSessionFile parse f a s)\<lparr>files := (files s)(f \<mapsto> content @ appended)\<rparr>)
              = forEach_line parse a (nonblank_lines appended)
                  ((tailSessionFile parse f a s)
                     \<lparr>files := (files s)(f \<mapsto> content @ appended),
                      sessionFileOffsets := (sessionFileOffsets (tailSessionFile parse f a s))
                                              (f \<mapsto> length content + length appended)\<rparr>))"
proof -
  let ?s1 = "tailSessionFile parse f a s"
  have c1: "?s1 = forEach_line parse a (before @ after)
               (s\<lparr>sessionFileOffsets := (sessionFileOffsets s)(f \<mapsto> length content)\<rparr>)"
    using tail_reads_range [OF assms(1,2), of parse a] assms(3)
      forEach_line_skip [of parse bad a before after, OF assms(4)]
    by simp
  have c2: "sessionFileOffsets ?s1 f = Some (length content)"
    by (rule tail_after(1) [OF assms(1)])
  have f1: "files ?s1 f = Some content"
    using tail_after(2) [OF assms(1), of parse a] assms(1) by simp
  have "length content \<le> stored_offset ?s1 f" using c2 by (simp add: stored_offset_def)
  from tail_not_grown [OF f1 this, of parse a]
  have c3: "tailSessionFile parse f a ?s1 = ?s1"
    using c2 by (simp add: map_upd_triv)
  have c4: "appended \<noteq> [] \<longrightarrow>
              tailSessionFile parse f a
                (?s1\<lparr>files := (files s)(f \<mapsto> content @ appended)\<rparr>)
              = forEach_line parse a (nonblank_lines appended)
                  (?s1\<lparr>files := (files s)(f \<mapsto> content @ appended),
                      sessionFileOffsets := (sessionFileOffsets ?s1)
                                              (f \<mapsto> length content + length appended)\<rparr>)"
    using tail_then_append [OF assms(1), of appended parse a] by blast
  show ?thesis by (intro conjI c1 c2 c3 c4)
qed

text \<open>A log of two lines, the first of which is not JSON.\<close>

lemma malformed_log_lines:
  "nonblank_lines (''not json'' @ [CHR 0x0A] @ spawn_line @ [CHR 0x0A]) = [''not json'', spawn_line]"
proof -
  have "nonblank_lines (''not json'' @ CHR 0x0A # (spawn_line @ [CHR 0x0A]))
        = nonblank_lines ''not json'' @ nonblank_lines (spawn_line @ [CHR 0x0A])"
    by (rule nonblank_lines_append)
  moreover have "nonblank_lines ''not json'' = [''not json'']"
    by (rule nonblank_lines_single) (simp_all add: js_trim_def is_space_def)
  ultimately show ?thesis by (simp add: spawn_line_lines)
qed

theorem malformed_line_skipped_witness:
  "files malformed_log session_log = Some (''not json'' @ [CHR 0x0A] @ spawn_line @ [CHR 0x0A])
   \<and> stored_offset malformed_log session_log = 0
   \<and> nonblank_lines (''not json'' @ [CHR 0x0A] @ spawn_line @ [CHR 0x0A])
       = [] @ ''not json'' # [spawn_line]
   \<and> sample_parse ''not json'' = None
   \<and> tailSessionFile sample_parse session_log ''main'' malformed_log
       = forEach_line sample_parse ''main'' [spawn_line]
           (malformed_log\<lparr>sessionFileOffsets := (sessionFileOffsets malformed_log)
              (session_log \<mapsto> length (''not json'' @ [CHR 0x0A] @ spawn_line @ [CHR 0x0A]))\<rparr>)
   \<and> sessionFileOffsets (tailSessionFile sample_parse session_log ''main'' malformed_log)
         session_log
       = Some (length (''not json'' @ [CHR 0x0A] @ spawn_line @ [CHR 0x0A]))
   \<and> tailSessionFile sample_parse session_log ''main''
         (tailSessionFile sample_parse session_log ''main'' malformed_log)
       = tailSessionFile sample_parse session_log ''main'' malformed_log
   \<and> ''more'' \<noteq> []
   \<and> tailSessionFile sample_parse session_log ''main''
         ((tailSessionFile sample_parse session_log ''main'' malformed_log)
            \<lparr>files := (files malformed_log)
               (session_log \<mapsto> (''not json'' @ [CHR 0x0A] @ spawn_line @ [CHR 0x0A]) @ ''more'')\<rparr>)
       = forEach_line sample_parse ''main'' (nonblank_lines ''more'')
           ((tailSessionFile sample_parse session_log ''main'' malformed_log)
              \<lparr>files := (files malformed_log)
                 (session_log \<mapsto> (''not json'' @ [CHR 0x0A] @ spawn_line @ [CHR 0x0A]) @ ''more''),
               sessionFileOffsets :=
                 (sessionFileOffsets (tailSessionFile sample_parse session_log ''main'' malformed_log))
                 (session_log \<mapsto> length (''not json'' @ [CHR 0x0A] @ spawn_line @ [CHR 0x0A])
                                    + length ''more'')\<rparr>)"
proof -
  let ?content = "''not json'' @ [CHR 0x0A] @ spawn_line @ [CHR 0x0A]"
  have h1: "files malformed_log session_log = Some ?content"
    by (simp add: malformed_log_def)
  have o: "stored_offset malformed_log session_log = 0"
    by (simp add: malformed_log_def two_clients_def server0_def stored_offset_def)
  have h2: "stored_offset malformed_log session_log < length ?content" using o by simp
  have l: "nonblank_lines ?content = [] @ ''not json'' # [spawn_line]"
    using malformed_log_lines by simp
  have h3: "nonblank_lines (drop (stored_offset malformed_log session_log) ?content)
            = [] @ ''not json'' # [spawn_line]"
    using l o by simp
  have h4: "sample_parse ''not json'' = None"
    by (simp add: sample_parse_def spawn_line_def index_line_def)
  note th = malformed_line_skipped [where parse = sample_parse and bad = "''not json''"
      and before = "[]" and after = "[spawn_line]" and a = "''main''" and appended = "''more''",
      OF h1 h2 h3 h4]
  from th [THEN conjunct1] have c1:
    "tailSessionFile sample_parse session_log ''main'' malformed_log
       = forEach_line sample_parse ''main'' [spawn_line]
           (malformed_log\<lparr>sessionFileOffsets := (sessionFileOffsets malformed_log)
              (session_log \<mapsto> length ?content)\<rparr>)"
    by (simp del: forEach_line.simps)
  note c2 = th [THEN conjunct2, THEN conjunct1]
  note c3 = th [THEN conjunct2, THEN conjunct2, THEN conjunct1]
  have h5: "''more'' \<noteq> []" by simp
  note c4 = th [THEN conjunct2, THEN conjunct2, THEN conjunct2, THEN mp, OF h5]
  show ?thesis by (intro conjI h1 o l h4 c1 c2 c3 h5 c4)
qed

section \<open>Polling\<close>




end
